theory Spec2Isabelle
  imports Main "HOL-Library.Sublist"
begin

section \<open>Values of the program\<close>

text \<open>
  The gateway of \<^verbatim>\<open>src/back-end/server.js\<close> reads parsed JSON and writes
  plain objects. Both are values of one datatype. \<open>JUndefined\<close> is what reading a missing
  property gives; it never occurs inside a parsed payload but can sit in an object the
  program builds. An object is an association list read with \<open>map_of\<close>.

  Numbers of the program are IEEE doubles. The model carries the integer-valued ones
  (exact below \<open>2 ^ 53\<close>) as \<open>int\<close>; \<open>NaN\<close> is \<open>None\<close> in \<open>int option\<close>. Strings are lists
  of code units; a \<open>char\<close> stands for a code unit below 256.
\<close>

datatype json =
    JUndefined
  | JNull
  | JBool bool
  | JNum int
  | JStr string
  | JArr "json list"
  | JObj "(string \<times> json) list"

text \<open>What a route can throw, and so hand to \<^verbatim>\<open>next\<close>: a TypeError of the runtime, the
  \<^verbatim>\<open>Error\<close> a route makes of an upstream status (its message and the status), the
  rejection of \<^verbatim>\<open>fetch\<close>, and the rejection of \<^verbatim>\<open>r.json()\<close>.\<close>

datatype error =
    TypeError
  | UpstreamFailed string nat
  | FetchRejected
  | JsonRejected

text \<open>What \<^verbatim>\<open>fetch\<close> gives for a URL: no answer, or an answer with its status and its body
  as \<^verbatim>\<open>r.json()\<close> parses it, \<open>None\<close> for a body that is not JSON.\<close>

datatype upstream =
    NetworkError
  | Response nat "json option"

text \<open>The parts of the environment, of the JavaScript runtime and of \<^verbatim>\<open>ngeohash\<close> that
  are taken as given. \<open>'n\<close> is the type of doubles as \<^verbatim>\<open>Number\<close>, \<^verbatim>\<open>parseFloat\<close> and
  \<^verbatim>\<open>toFixed\<close> see them. \<open>NumberToString\<close> and \<open>StringToNumber\<close> are the conversions between
  the integers of the model and text; \<open>PrimitiveToDouble\<close> is \<^verbatim>\<open>Number\<close> on a value that is
  neither an array nor an object; \<open>toFixed2\<close> is \<^verbatim>\<open>toFixed(2)\<close>; \<open>Object_prototype\<close>
  gives, as text, the members every object inherits.\<close>

record 'n env =
  TM_API_KEY :: "string option"
  fetch :: "string \<Rightarrow> upstream"
  NumberToString :: "int \<Rightarrow> string"
  StringToNumber :: "string \<Rightarrow> int option"
  PrimitiveToDouble :: "json \<Rightarrow> 'n"
  toFixed2 :: "'n \<Rightarrow> string"
  parseFloat :: "string \<Rightarrow> 'n"
  ngeohash_encode :: "'n \<Rightarrow> 'n \<Rightarrow> nat \<Rightarrow> string"
  encodeURIComponent :: "string \<Rightarrow> string"
  URLSearchParams_toString :: "(string \<times> string) list \<Rightarrow> string"
  Object_prototype :: "string \<Rightarrow> string option"

subsection \<open>Truthiness, property reads, defaults\<close>

fun truthy :: "json \<Rightarrow> bool" where
  "truthy JUndefined = False"
| "truthy JNull = False"
| "truthy (JBool b) = b"
| "truthy (JNum n) = (n \<noteq> 0)"
| "truthy (JStr s) = (s \<noteq> [])"
| "truthy (JArr xs) = True"
| "truthy (JObj kvs) = True"

fun nullish :: "json \<Rightarrow> bool" where
  "nullish JUndefined = True"
| "nullish JNull = True"
| "nullish v = False"

text \<open>\<open>own v k\<close> reads property \<open>k\<close> of a value that is neither null nor undefined. None of
  the names this program reads is a member of the String, Number, Boolean or Array
  prototypes, so only an object can answer.\<close>

fun own :: "json \<Rightarrow> string \<Rightarrow> json" where
  "own (JObj kvs) k = (case map_of kvs k of Some v \<Rightarrow> v | None \<Rightarrow> JUndefined)"
| "own v k = JUndefined"

text \<open>\<^verbatim>\<open>v.k\<close> throws on null and undefined; \<^verbatim>\<open>v?.k\<close> gives undefined there.\<close>

definition get :: "json \<Rightarrow> string \<Rightarrow> error + json" where
  "get v k = (if nullish v then Inl TypeError else Inr (own v k))"

definition oget :: "json \<Rightarrow> string \<Rightarrow> json" where
  "oget v k = (if nullish v then JUndefined else own v k)"

text \<open>\<^verbatim>\<open>v[0]\<close> on a value that is neither null nor undefined, and \<^verbatim>\<open>v?.[0]\<close>.\<close>

fun own0 :: "json \<Rightarrow> json" where
  "own0 (JArr xs) = (case xs of [] \<Rightarrow> JUndefined | x # rest \<Rightarrow> x)"
| "own0 (JStr s) = (case s of [] \<Rightarrow> JUndefined | c # rest \<Rightarrow> JStr [c])"
| "own0 (JObj kvs) = own (JObj kvs) ''0''"
| "own0 v = JUndefined"

definition oget0 :: "json \<Rightarrow> json" where
  "oget0 v = (if nullish v then JUndefined else own0 v)"

text \<open>\<^verbatim>\<open>v ?? d\<close> and \<^verbatim>\<open>v || d\<close>.\<close>

definition coalesce :: "json \<Rightarrow> json \<Rightarrow> json" where
  "coalesce v d = (if nullish v then d else v)"

definition or_else :: "json \<Rightarrow> json \<Rightarrow> json" where
  "or_else v d = (if truthy v then v else d)"

subsection \<open>Conversions to string and to number\<close>

fun join_strings :: "string \<Rightarrow> string list \<Rightarrow> string" where
  "join_strings sep [] = []"
| "join_strings sep [s] = s"
| "join_strings sep (s # t # rest) = s @ sep @ join_strings sep (t # rest)"

fun sequence :: "(error + 'a) list \<Rightarrow> error + 'a list" where
  "sequence [] = Inr []"
| "sequence (r # rs) =
     (case r of Inl e \<Rightarrow> Inl e
      | Inr v \<Rightarrow> (case sequence rs of Inl e \<Rightarrow> Inl e | Inr vs \<Rightarrow> Inr (v # vs)))"

text \<open>\<^verbatim>\<open>ToString\<close>. A parsed object inherits \<^verbatim>\<open>Object.prototype.toString\<close> unless it has
  a key \<^verbatim>\<open>toString\<close> of its own, which holds no function: then the conversion throws. An
  array joins its elements with a comma, null and undefined as the empty string.\<close>

fun ToString :: "(int \<Rightarrow> string) \<Rightarrow> json \<Rightarrow> error + string" where
  "ToString ns JUndefined = Inr ''undefined''"
| "ToString ns JNull = Inr ''null''"
| "ToString ns (JBool b) = Inr (if b then ''true'' else ''false'')"
| "ToString ns (JNum n) = Inr (ns n)"
| "ToString ns (JStr s) = Inr s"
| "ToString ns (JArr xs) =
     (case sequence (map (\<lambda>x. if nullish x then Inr [] else ToString ns x) xs) of
        Inl e \<Rightarrow> Inl e
      | Inr ss \<Rightarrow> Inr (join_strings '','' ss))"
| "ToString ns (JObj kvs) =
     (if map_of kvs ''toString'' = None then Inr ''[object Object]'' else Inl TypeError)"

text \<open>\<^verbatim>\<open>Array.prototype.join\<close>.\<close>

definition array_join :: "(int \<Rightarrow> string) \<Rightarrow> string \<Rightarrow> json list \<Rightarrow> error + string" where
  "array_join ns sep xs =
     (case sequence (map (\<lambda>x. if nullish x then Inr [] else ToString ns x) xs) of
        Inl e \<Rightarrow> Inl e
      | Inr ss \<Rightarrow> Inr (join_strings sep ss))"

text \<open>\<^verbatim>\<open>ToNumber\<close> on integers: undefined is NaN, null is 0, a string, an array or an object
  goes through its string.\<close>

definition ToNumber :: "'n env \<Rightarrow> json \<Rightarrow> error + int option" where
  "ToNumber env v =
     (case v of
        JUndefined \<Rightarrow> Inr None
      | JNull \<Rightarrow> Inr (Some 0)
      | JBool b \<Rightarrow> Inr (Some (if b then 1 else 0))
      | JNum n \<Rightarrow> Inr (Some n)
      | JStr s \<Rightarrow> Inr (StringToNumber env s)
      | _ \<Rightarrow> (case ToString (NumberToString env) v of
                Inl e \<Rightarrow> Inl e
              | Inr s \<Rightarrow> Inr (StringToNumber env s)))"

text \<open>\<^verbatim>\<open>Number(v)\<close> as a double: an array or an object is first turned into its string.\<close>

definition Number :: "'n env \<Rightarrow> json \<Rightarrow> error + 'n" where
  "Number env v =
     (case v of
        JArr xs \<Rightarrow> (case ToString (NumberToString env) v of
                     Inl e \<Rightarrow> Inl e | Inr s \<Rightarrow> Inr (PrimitiveToDouble env (JStr s)))
      | JObj kvs \<Rightarrow> (case ToString (NumberToString env) v of
                      Inl e \<Rightarrow> Inl e | Inr s \<Rightarrow> Inr (PrimitiveToDouble env (JStr s)))
      | _ \<Rightarrow> Inr (PrimitiveToDouble env v))"

definition andThen :: "error + 'a \<Rightarrow> ('a \<Rightarrow> error + 'b) \<Rightarrow> error + 'b" where
  "andThen r f = (case r of Inl e \<Rightarrow> Inl e | Inr v \<Rightarrow> f v)"

subsection \<open>Arrays\<close>

text \<open>\<^verbatim>\<open>v.map(f)\<close> and \<^verbatim>\<open>v.forEach(f)\<close> exist on arrays only; on any other value that is
  neither null nor undefined the member is missing and the call throws, on null and
  undefined the read throws.\<close>

definition array_map :: "(json \<Rightarrow> error + 'a) \<Rightarrow> json \<Rightarrow> error + 'a list" where
  "array_map f v = (case v of JArr xs \<Rightarrow> sequence (map f xs) | _ \<Rightarrow> Inl TypeError)"

text \<open>\<^verbatim>\<open>Array.prototype.sort\<close> with a comparator. ECMAScript asks for a stable sort and reads
  a NaN from the comparator as 0; an array of one element is returned without a call of
  the comparator. The model is the stable insertion sort: it returns the order every
  stable sort returns when the comparator is consistent. When it is not (a NaN among its
  results) the order is left to the implementation, and the order of the engine need not
  be the order of the model: what is stated below about the order is stated for
  consistent comparators only, and the rest holds for any order.\<close>

fun insert_sorted ::
  "(json \<Rightarrow> json \<Rightarrow> error + int option) \<Rightarrow> json \<Rightarrow> json list \<Rightarrow> error + json list" where
  "insert_sorted cmp x [] = Inr [x]"
| "insert_sorted cmp x (y # ys) =
     (case cmp x y of
        Inl e \<Rightarrow> Inl e
      | Inr v \<Rightarrow>
          if (case v of None \<Rightarrow> True | Some d \<Rightarrow> d \<le> 0) then Inr (x # y # ys)
          else (case insert_sorted cmp x ys of Inl e \<Rightarrow> Inl e | Inr zs \<Rightarrow> Inr (y # zs)))"

fun array_sort ::
  "(json \<Rightarrow> json \<Rightarrow> error + int option) \<Rightarrow> json list \<Rightarrow> error + json list" where
  "array_sort cmp [] = Inr []"
| "array_sort cmp (x # xs) =
     (case array_sort cmp xs of Inl e \<Rightarrow> Inl e | Inr ys \<Rightarrow> insert_sorted cmp x ys)"

section \<open>Helpers of the routes\<close>

text \<open>The functions of \<^verbatim>\<open>server.js\<close> from line 56 to line 91 and from line 199 to
  line 219, under their names.\<close>

subsection \<open>pickImage (lines 67 to 72)\<close>

definition num_sub :: "int option \<Rightarrow> int option \<Rightarrow> int option" where
  "num_sub a b =
     (case a of None \<Rightarrow> None
      | Some x \<Rightarrow> (case b of None \<Rightarrow> None | Some y \<Rightarrow> Some (x - y)))"

text \<open>\<^verbatim>\<open>Math.abs(a.width - a.height)\<close>. The subtraction is exact on the integers of the
  model; the code rounds in doubles. The two agree as long as the values stay below
  \<open>2 ^ 53\<close> in magnitude, which the statements about the order ask for.\<close>

definition squareness :: "'n env \<Rightarrow> json \<Rightarrow> error + int option" where
  "squareness env a =
     andThen (get a ''width'') (\<lambda>w.
     andThen (get a ''height'') (\<lambda>h.
     andThen (ToNumber env w) (\<lambda>x.
     andThen (ToNumber env h) (\<lambda>y.
       Inr (map_option abs (num_sub x y))))))"

definition compare_images :: "'n env \<Rightarrow> json \<Rightarrow> json \<Rightarrow> error + int option" where
  "compare_images env a b =
     andThen (squareness env a) (\<lambda>ka.
     andThen (squareness env b) (\<lambda>kb. Inr (num_sub ka kb)))"

definition pickImage :: "'n env \<Rightarrow> json \<Rightarrow> error + json" where
  "pickImage env images =
     (case images of
        JArr (first # rest) \<Rightarrow>
          andThen (array_sort (compare_images env) (first # rest)) (\<lambda>sorted.
            let u = oget (own0 (JArr sorted)) ''url'' in
            if truthy u then Inr u
            else andThen (get first ''url'') (\<lambda>u0. Inr (or_else u0 (JStr ''''))))
      | _ \<Rightarrow> Inr (JStr ''''))"

subsection \<open>pickGenre (lines 74 to 79)\<close>

definition pickGenre :: "'n env \<Rightarrow> json \<Rightarrow> error + json" where
  "pickGenre env classifications =
     (case classifications of
        JArr (c # rest) \<Rightarrow>
          andThen (array_join (NumberToString env) '' | ''
                     (filter truthy [oget (oget c ''segment'') ''name'',
                                     oget (oget c ''genre'') ''name'',
                                     oget (oget c ''subGenre'') ''name'']))
                  (\<lambda>s. Inr (JStr s))
      | _ \<Rightarrow> Inr (JStr ''''))"

subsection \<open>ticketStatusColor (lines 81 to 91)\<close>

text \<open>\<^verbatim>\<open>String.prototype.toLowerCase\<close> on code units below 256: the letters A to Z and the
  capital letters of Latin-1 (192 to 222 without the multiplication sign 215) move up
  by 32.\<close>

definition lower_char :: "char \<Rightarrow> char" where
  "lower_char c =
     (let n = (of_char c :: nat)
      in if (65 \<le> n \<and> n \<le> 90) \<or> (192 \<le> n \<and> n \<le> 222 \<and> n \<noteq> 215)
         then char_of (n + 32) else c)"

definition toLowerCase :: "string \<Rightarrow> string" where
  "toLowerCase s = map lower_char s"

text \<open>\<^verbatim>\<open>s.includes(p)\<close>\<close>

definition str_includes :: "string \<Rightarrow> string \<Rightarrow> bool" where
  "str_includes s p = sublist p s"

definition ticketStatusColor :: "json \<Rightarrow> error + json" where
  "ticketStatusColor code =
     (case or_else code (JStr '''') of
        JStr s \<Rightarrow>
          (let c = toLowerCase s in
           if str_includes c ''onsale'' then Inr (JStr ''green'')
           else if str_includes c ''offsale'' then Inr (JStr ''red'')
           else if str_includes c ''cancel'' then Inr (JStr ''black'')
           else if str_includes c ''postpon'' then Inr (JStr ''orange'')
           else if str_includes c ''resched'' then Inr (JStr ''orange'')
           else Inr (JStr ''gray''))
      | _ \<Rightarrow> Inl TypeError)"

subsection \<open>fullAddress (lines 199 to 208) and formatPriceRange (lines 210 to 219)\<close>

definition fullAddress :: "'n env \<Rightarrow> json \<Rightarrow> error + json" where
  "fullAddress env venue =
     (if \<not> truthy venue then Inr (JStr '''')
      else
        andThen (array_join (NumberToString env) '', ''
                   (filter truthy [oget (oget venue ''city'') ''name'',
                                   oget (oget venue ''state'') ''stateCode'']))
        (\<lambda>cityState.
        andThen (array_join (NumberToString env) '', ''
                   (filter truthy [oget venue ''name'',
                                   oget (oget venue ''address'') ''line1'',
                                   JStr cityState,
                                   oget venue ''postalCode'']))
        (\<lambda>s. Inr (JStr s))))"

text \<open>\<^verbatim>\<open>r?.min != null ? Number(r.min).toFixed(2) : null\<close>, for either bound.\<close>

definition price_bound :: "'n env \<Rightarrow> json \<Rightarrow> string \<Rightarrow> error + string option" where
  "price_bound env r k =
     (if \<not> nullish (oget r k)
      then andThen (get r k) (\<lambda>v. andThen (Number env v) (\<lambda>d. Inr (Some (toFixed2 env d))))
      else Inr None)"

definition truthy_str :: "string option \<Rightarrow> bool" where
  "truthy_str m = (case m of None \<Rightarrow> False | Some s \<Rightarrow> s \<noteq> [])"

definition formatPriceRange :: "'n env \<Rightarrow> json \<Rightarrow> error + json" where
  "formatPriceRange env ranges =
     (case ranges of
        JArr (r # rest) \<Rightarrow>
          andThen (price_bound env r ''min'') (\<lambda>min.
          andThen (price_bound env r ''max'') (\<lambda>max.
            if truthy_str min \<and> truthy_str max
              then Inr (JStr (''$'' @ the min @ '' ~ $'' @ the max))
            else if truthy_str min then Inr (JStr (''From $'' @ the min))
            else if truthy_str max then Inr (JStr (''Up to $'' @ the max))
            else Inr (JStr '''')))
      | _ \<Rightarrow> Inr (JStr ''''))"

subsection \<open>normEventRow (lines 56 to 65)\<close>

definition normEventRow :: "'n env \<Rightarrow> json \<Rightarrow> error + json" where
  "normEventRow env e =
     andThen (get e ''id'') (\<lambda>eid.
     andThen (get e ''name'') (\<lambda>ename.
     andThen (pickImage env (oget e ''images'')) (\<lambda>image.
     andThen (pickGenre env (oget e ''classifications'')) (\<lambda>g.
       Inr (JObj
         [(''id'', eid),
          (''name'', coalesce ename (JStr '''')),
          (''dateLocal'',
             coalesce (oget (oget (oget e ''dates'') ''start'') ''localDate'') (JStr '''')),
          (''imageUrl'', image),
          (''genre'', g),
          (''venue'',
             coalesce (oget (oget0 (oget (oget e ''_embedded'') ''venues'')) ''name'')
                      (JStr ''''))])))))"

section \<open>Routes\<close>

text \<open>What a route does with a request: the reply it sends (\<^verbatim>\<open>res.status(n).json(body)\<close>,
  status 200 when none is set) or the error it hands to \<^verbatim>\<open>next\<close>, and the URLs it fetched, in
  order.\<close>

record 'n location =
  lat :: "'n option"
  lng :: "'n option"

record 'n VenueInfo =
  name :: json
  address :: json
  location :: "'n location"
  googleMapsUrl :: "string option"
  tmUrl :: json

datatype 'n body =
    ErrorBody string
  | JsonBody json
  | VenueBody "'n VenueInfo"

datatype 'n reply =
    Sent nat "'n body"
  | Forwarded error

record 'n served =
  reply :: "'n reply"
  fetched :: "string list"

definition TM_BASE :: string where
  "TM_BASE = ''https://app.ticketmaster.com/discovery/v2''"

definition SEGMENT_IDS :: "(string \<times> string) list" where
  "SEGMENT_IDS =
     [(''Music'', ''KZFzniwnSyZfZ7v7nJ''),
      (''Sports'', ''KZFzniwnSyZfZ7v7nE''),
      (''Arts & Theatre'', ''KZFzniwnSyZfZ7v7na''),
      (''Film'', ''KZFzniwnSyZfZ7v7nn''),
      (''Miscellaneous'', ''KZFzniwnSyZfZ7v7n1'')]"

text \<open>\<^verbatim>\<open>SEGMENT_IDS[category]\<close> when it is truthy, as the text that goes into the URL. A key
  that is not in the table still reaches the members the table inherits
  (\<^verbatim>\<open>constructor\<close>, \<^verbatim>\<open>toString\<close>, ...): \<open>Object_prototype\<close> gives their text.\<close>

definition segment_of :: "'n env \<Rightarrow> string \<Rightarrow> string option" where
  "segment_of env k =
     (case map_of SEGMENT_IDS k of Some seg \<Rightarrow> Some seg | None \<Rightarrow> Object_prototype env k)"

text \<open>\<^verbatim>\<open>${TM_API_KEY}\<close>: an unset variable reads as the text \<^verbatim>\<open>undefined\<close>.\<close>

definition api_key :: "'n env \<Rightarrow> string" where
  "api_key env = (case TM_API_KEY env of None \<Rightarrow> ''undefined'' | Some k \<Rightarrow> k)"

text \<open>\<^verbatim>\<open>r.ok\<close>\<close>

definition ok :: "nat \<Rightarrow> bool" where
  "ok st = (200 \<le> st \<and> st \<le> 299)"

text \<open>The default of a destructuring pattern applies to undefined only.\<close>

definition dflt :: "json \<Rightarrow> json \<Rightarrow> json" where
  "dflt v d = (if v = JUndefined then d else v)"

subsection \<open>GET /api/search (lines 96 to 125)\<close>

definition search_url ::
  "'n env \<Rightarrow> json \<Rightarrow> json \<Rightarrow> json \<Rightarrow> json \<Rightarrow> json \<Rightarrow> error + string" where
  "search_url env keyword distance category latParam lngParam =
     andThen (ToString (NumberToString env) latParam) (\<lambda>latText.
     andThen (ToString (NumberToString env) lngParam) (\<lambda>lngText.
     let geoPoint = ngeohash_encode env (parseFloat env latText) (parseFloat env lngText) 7 in
     andThen (ToString (NumberToString env) keyword) (\<lambda>keywordText.
     andThen (ToString (NumberToString env) (or_else distance (JStr ''10''))) (\<lambda>radius.
     let params = [(''apikey'', api_key env),
                   (''keyword'', keywordText),
                   (''radius'', radius),
                   (''unit'', ''miles''),
                   (''geoPoint'', geoPoint)] in
     andThen (ToString (NumberToString env) category) (\<lambda>categoryKey.
     let params2 = (case segment_of env categoryKey of
                      Some seg \<Rightarrow> params @ [(''segmentId'', seg)]
                    | None \<Rightarrow> params) in
     Inr (TM_BASE @ ''/events.json?'' @ URLSearchParams_toString env params2))))))"

text \<open>\<^verbatim>\<open>(j?._embedded?.events || []).map(normEventRow)\<close>\<close>

definition search_events :: "'n env \<Rightarrow> json \<Rightarrow> error + json list" where
  "search_events env j =
     array_map (normEventRow env) (or_else (oget (oget j ''_embedded'') ''events'') (JArr []))"

text \<open>The handler. \<open>query\<close> is \<^verbatim>\<open>req.query\<close>: an object whose values are the strings, arrays
  and objects the query parser makes; a parameter that was not sent reads as undefined.\<close>

definition route_search :: "'n env \<Rightarrow> json \<Rightarrow> 'n served" where
  "route_search env query =
     (let keyword = dflt (own query ''keyword'') (JStr '''');
          distance = dflt (own query ''distance'') (JStr ''10'');
          category = dflt (own query ''category'') (JStr ''Default'');
          latParam = own query ''lat'';
          lngParam = own query ''lng''
      in
      if \<not> truthy keyword
        then \<lparr>reply = Sent 400 (ErrorBody ''keyword is required''), fetched = []\<rparr>
      else if \<not> truthy latParam \<or> \<not> truthy lngParam
        then \<lparr>reply = Sent 400 (ErrorBody ''lat and lng are required''), fetched = []\<rparr>
      else
        (case search_url env keyword distance category latParam lngParam of
           Inl e \<Rightarrow> \<lparr>reply = Forwarded e, fetched = []\<rparr>
         | Inr url \<Rightarrow>
            (case fetch env url of
               NetworkError \<Rightarrow> \<lparr>reply = Forwarded FetchRejected, fetched = [url]\<rparr>
             | Response st parsed \<Rightarrow>
                 if \<not> ok st
                   then \<lparr>reply = Forwarded (UpstreamFailed ''TM search failed: '' st),
                         fetched = [url]\<rparr>
                 else
                   (case parsed of
                      None \<Rightarrow> \<lparr>reply = Forwarded JsonRejected, fetched = [url]\<rparr>
                    | Some j \<Rightarrow>
                       (case search_events env j of
                          Inl e \<Rightarrow> \<lparr>reply = Forwarded e, fetched = [url]\<rparr>
                        | Inr events \<Rightarrow>
                            \<lparr>reply = Sent 200 (JsonBody (JArr events)), fetched = [url]\<rparr>)))))"

subsection \<open>GET /api/event/:id (lines 128 to 156)\<close>

definition artist :: "json \<Rightarrow> error + json" where
  "artist a =
     andThen (get a ''name'') (\<lambda>n.
     andThen (get a ''url'') (\<lambda>u. Inr (JObj [(''name'', n), (''url'', u)])))"

text \<open>The object \<^verbatim>\<open>details\<close> (lines 136 to 150); \<open>artist\<close> is the function mapped over the
  attractions.\<close>

definition details :: "'n env \<Rightarrow> json \<Rightarrow> error + json" where
  "details env e =
     andThen (get e ''id'') (\<lambda>eid.
     andThen (get e ''name'') (\<lambda>ename.
     andThen (array_map artist (or_else (oget (oget e ''_embedded'') ''attractions'') (JArr [])))
       (\<lambda>artists.
     andThen (fullAddress env (oget0 (oget (oget e ''_embedded'') ''venues''))) (\<lambda>addr.
     andThen (ticketStatusColor (oget (oget (oget e ''dates'') ''status'') ''code'')) (\<lambda>color.
     andThen (formatPriceRange env (oget e ''priceRanges'')) (\<lambda>price.
     andThen (pickGenre env (oget e ''classifications'')) (\<lambda>g.
       Inr (JObj
         [(''id'', eid),
          (''name'', coalesce ename (JStr '''')),
          (''dateLocal'',
             coalesce (oget (oget (oget e ''dates'') ''start'') ''localDate'') (JStr '''')),
          (''timeLocal'',
             coalesce (oget (oget (oget e ''dates'') ''start'') ''localTime'') (JStr '''')),
          (''artists'', JArr (take 5 artists)),
          (''venue'',
             coalesce (oget (oget0 (oget (oget e ''_embedded'') ''venues'')) ''name'')
                      (JStr '''')),
          (''address'', addr),
          (''ticketStatus'',
             coalesce (oget (oget (oget e ''dates'') ''status'') ''code'') (JStr '''')),
          (''ticketStatusColor'', color),
          (''buyTicketAt'', coalesce (oget e ''url'') (JStr '''')),
          (''seatmap'', coalesce (oget (oget e ''seatmap'') ''staticUrl'') (JStr '''')),
          (''priceRange'', price),
          (''genre'', g)]))))))))"

text \<open>The handler. \<open>eventId\<close> is \<^verbatim>\<open>req.params.id\<close>, a string.\<close>

definition route_event :: "'n env \<Rightarrow> string \<Rightarrow> 'n served" where
  "route_event env eventId =
     (let url = TM_BASE @ ''/events/'' @ encodeURIComponent env eventId
                @ ''.json?apikey='' @ api_key env
      in
      case fetch env url of
        NetworkError \<Rightarrow> \<lparr>reply = Forwarded FetchRejected, fetched = [url]\<rparr>
      | Response st parsed \<Rightarrow>
          if \<not> ok st
            then \<lparr>reply = Sent st (ErrorBody ''event not found''), fetched = [url]\<rparr>
          else
            (case parsed of
               None \<Rightarrow> \<lparr>reply = Forwarded JsonRejected, fetched = [url]\<rparr>
             | Some e \<Rightarrow>
                (case details env e of
                   Inl err \<Rightarrow> \<lparr>reply = Forwarded err, fetched = [url]\<rparr>
                 | Inr d \<Rightarrow> \<lparr>reply = Sent 200 (JsonBody d), fetched = [url]\<rparr>)))"

subsection \<open>GET /api/venue (lines 159 to 196)\<close>

text \<open>\<^verbatim>\<open>v?.location?.latitude ? Number(v.location.latitude) : null\<close>, for either coordinate.\<close>

definition coordinate :: "'n env \<Rightarrow> json \<Rightarrow> string \<Rightarrow> error + 'n option" where
  "coordinate env v k =
     (if truthy (oget (oget v ''location'') k)
      then andThen (get v ''location'') (\<lambda>l.
           andThen (get l k) (\<lambda>c.
           andThen (Number env c) (\<lambda>d. Inr (Some d))))
      else Inr None)"

definition maps_url :: "'n env \<Rightarrow> json \<Rightarrow> error + string option" where
  "maps_url env v =
     (if truthy (oget (oget v ''location'') ''latitude'')
         \<and> truthy (oget (oget v ''location'') ''longitude'')
      then andThen (get v ''location'') (\<lambda>l.
           andThen (get l ''latitude'') (\<lambda>a.
           andThen (ToString (NumberToString env) a) (\<lambda>aText.
           andThen (get l ''longitude'') (\<lambda>b.
           andThen (ToString (NumberToString env) b) (\<lambda>bText.
             Inr (Some (''https://www.google.com/maps/search/?api=1&query=''
                        @ aText @ '','' @ bText)))))))
      else Inr None)"

text \<open>The object \<^verbatim>\<open>out\<close> (lines 178 to 190).\<close>

definition venue_out :: "'n env \<Rightarrow> json \<Rightarrow> error + 'n VenueInfo" where
  "venue_out env v =
     andThen (get v ''name'') (\<lambda>vname.
     andThen (fullAddress env v) (\<lambda>addr.
     andThen (coordinate env v ''latitude'') (\<lambda>la.
     andThen (coordinate env v ''longitude'') (\<lambda>lo.
     andThen (maps_url env v) (\<lambda>maps.
       Inr \<lparr>name = coalesce vname (JStr ''''),
            address = addr,
            location = \<lparr>lat = la, lng = lo\<rparr>,
            googleMapsUrl = maps,
            tmUrl = coalesce (oget v ''url'') JNull\<rparr>)))))"

text \<open>From \<^verbatim>\<open>const v = j?._embedded?.venues?.[0]\<close> to the reply.\<close>

definition venue_reply :: "'n env \<Rightarrow> json \<Rightarrow> error + 'n body" where
  "venue_reply env j =
     (let v = oget0 (oget (oget j ''_embedded'') ''venues'')
      in if \<not> truthy v then Inr (JsonBody JNull)
         else andThen (venue_out env v) (\<lambda>out. Inr (VenueBody out)))"

definition route_venue :: "'n env \<Rightarrow> json \<Rightarrow> 'n served" where
  "route_venue env query =
     (let vname = own query ''name''
      in
      if \<not> truthy vname
        then \<lparr>reply = Sent 400 (ErrorBody ''name is required''), fetched = []\<rparr>
      else
        (case ToString (NumberToString env) vname of
           Inl e \<Rightarrow> \<lparr>reply = Forwarded e, fetched = []\<rparr>
         | Inr nameText \<Rightarrow>
            (let url = TM_BASE @ ''/venues.json?''
                       @ URLSearchParams_toString env
                           [(''apikey'', api_key env), (''keyword'', nameText), (''size'', ''1'')]
             in
             case fetch env url of
               NetworkError \<Rightarrow> \<lparr>reply = Forwarded FetchRejected, fetched = [url]\<rparr>
             | Response st parsed \<Rightarrow>
                 if \<not> ok st
                   then \<lparr>reply = Forwarded (UpstreamFailed ''TM venue failed: '' st),
                         fetched = [url]\<rparr>
                 else
                   (case parsed of
                      None \<Rightarrow> \<lparr>reply = Forwarded JsonRejected, fetched = [url]\<rparr>
                    | Some j \<Rightarrow>
                       (case venue_reply env j of
                          Inl e \<Rightarrow> \<lparr>reply = Forwarded e, fetched = [url]\<rparr>
                        | Inr b \<Rightarrow> \<lparr>reply = Sent 200 b, fetched = [url]\<rparr>)))))"

subsection \<open>GET /api/suggest (lines 221 to 246)\<close>

text \<open>\<^verbatim>\<open>String.prototype.trim\<close> removes white space and line terminators at both ends;
  below 256 these are the code units 9 to 13, 32 and 160.\<close>

definition white_space :: "char \<Rightarrow> bool" where
  "white_space c =
     (let n = (of_char c :: nat) in (9 \<le> n \<and> n \<le> 13) \<or> n = 32 \<or> n = 160)"

definition trim :: "string \<Rightarrow> string" where
  "trim s = rev (dropWhile white_space (rev (dropWhile white_space s)))"

text \<open>\<^verbatim>\<open>new Set(xs)\<close> keeps the values in the order of their first insertion and compares with
  SameValueZero: primitive values by value, arrays and objects by identity. The arrays and
  objects of a parsed payload are all different ones.\<close>

fun same_value_zero :: "json \<Rightarrow> json \<Rightarrow> bool" where
  "same_value_zero (JArr xs) v = False"
| "same_value_zero (JObj kvs) v = False"
| "same_value_zero u v = (u = v)"

definition set_add :: "json list \<Rightarrow> json \<Rightarrow> json list" where
  "set_add seen v = (if list_ex (\<lambda>u. same_value_zero u v) seen then seen else seen @ [v])"

definition new_Set :: "json list \<Rightarrow> json list" where
  "new_Set xs = foldl set_add [] xs"

text \<open>The names pushed onto \<^verbatim>\<open>suggestions\<close>.\<close>

definition suggestions :: "json \<Rightarrow> error + json list" where
  "suggestions j =
     andThen (get j ''_embedded'') (\<lambda>embedded.
       if truthy embedded then
         (let attractions = dflt (own embedded ''attractions'') (JArr []);
              venues = dflt (own embedded ''venues'') (JArr []);
              events = dflt (own embedded ''events'') (JArr [])
          in
          andThen (array_map (\<lambda>a. get a ''name'') attractions) (\<lambda>as.
          andThen (array_map (\<lambda>v. get v ''name'') venues) (\<lambda>vs.
          andThen (array_map (\<lambda>e. get e ''name'') events) (\<lambda>es.
            Inr (as @ vs @ es)))))
       else Inr [])"

definition unique :: "json \<Rightarrow> error + json list" where
  "unique j = andThen (suggestions j) (\<lambda>names. Inr (take 10 (new_Set names)))"

text \<open>The handler. A keyword that is no string (an array or an object of the query parser)
  has no \<^verbatim>\<open>trim\<close>: the call throws.\<close>

definition route_suggest :: "'n env \<Rightarrow> json \<Rightarrow> 'n served" where
  "route_suggest env query =
     (case dflt (own query ''keyword'') (JStr '''') of
        JStr keyword \<Rightarrow>
          if trim keyword = [] then \<lparr>reply = Sent 200 (JsonBody (JArr [])), fetched = []\<rparr>
          else
            (let url = TM_BASE @ ''/suggest?apikey='' @ api_key env
                       @ ''&keyword='' @ encodeURIComponent env keyword
             in
             case fetch env url of
               NetworkError \<Rightarrow> \<lparr>reply = Forwarded FetchRejected, fetched = [url]\<rparr>
             | Response st parsed \<Rightarrow>
                 if \<not> ok st
                   then \<lparr>reply = Forwarded (UpstreamFailed ''TM suggest failed: '' st),
                         fetched = [url]\<rparr>
                 else
                   (case parsed of
                      None \<Rightarrow> \<lparr>reply = Forwarded JsonRejected, fetched = [url]\<rparr>
                    | Some j \<Rightarrow>
                       (case unique j of
                          Inl e \<Rightarrow> \<lparr>reply = Forwarded e, fetched = [url]\<rparr>
                        | Inr names \<Rightarrow>
                            \<lparr>reply = Sent 200 (JsonBody (JArr names)), fetched = [url]\<rparr>)))
      | _ \<Rightarrow> \<lparr>reply = Forwarded TypeError, fetched = []\<rparr>)"

section \<open>Vocabulary of the properties\<close>

text \<open>A value that is neither an array nor an object: its conversion to a string or to a
  number cannot throw. An absent field reads as undefined, which is such a value.\<close>

definition primitive :: "json \<Rightarrow> bool" where
  "primitive v = (case v of JArr xs \<Rightarrow> False | JObj kvs \<Rightarrow> False | _ \<Rightarrow> True)"

text \<open>An image as the upstream documents it: an object with a numeric width and height, here
  integers small enough for double arithmetic on them to be exact. \<open>image_diff\<close> is its
  distance from a square.\<close>

definition is_image :: "json \<Rightarrow> bool" where
  "is_image v =
     (case v of
        JObj kvs \<Rightarrow>
          (case own v ''width'' of
             JNum w \<Rightarrow> (case own v ''height'' of
                          JNum h \<Rightarrow> \<bar>w\<bar> < 2 ^ 51 \<and> \<bar>h\<bar> < 2 ^ 51
                        | _ \<Rightarrow> False)
           | _ \<Rightarrow> False)
      | _ \<Rightarrow> False)"

definition image_diff :: "json \<Rightarrow> int" where
  "image_diff v =
     (case own v ''width'' of
        JNum w \<Rightarrow> (case own v ''height'' of JNum h \<Rightarrow> \<bar>w - h\<bar> | _ \<Rightarrow> 0)
      | _ \<Rightarrow> 0)"

text \<open>An array entry that \<open>pickImage\<close> can compare: not null, its width and height absent
  or primitive.\<close>

definition image_like :: "json \<Rightarrow> bool" where
  "image_like x =
     (\<not> nullish x \<and> primitive (own x ''width'') \<and> primitive (own x ''height''))"

text \<open>The specification's "case-insensitive substring", stated without the program's
  \<open>toLowerCase\<close>. A capital letter is one of A to Z (65 to 90) or one of the capital
  letters of Latin-1; its small letter is 32 further. Two characters are the same letter
  when they are equal or one is the capital of the other. \<open>s\<close> contains \<open>p\<close> up to case
  when some stretch of \<open>s\<close> is \<open>p\<close> letter by letter.\<close>

definition capital :: "char \<Rightarrow> bool" where
  "capital c =
     (let n = (of_char c :: nat)
      in (65 \<le> n \<and> n \<le> 90) \<or> (192 \<le> n \<and> n \<le> 222 \<and> n \<noteq> 215))"

definition same_letter :: "char \<Rightarrow> char \<Rightarrow> bool" where
  "same_letter c d =
     (c = d
      \<or> (capital c \<and> (of_char d :: nat) = of_char c + 32)
      \<or> (capital d \<and> (of_char c :: nat) = of_char d + 32))"

definition contains_ignoring_case :: "string \<Rightarrow> string \<Rightarrow> bool" where
  "contains_ignoring_case s p = (\<exists>w. sublist w s \<and> list_all2 same_letter w p)"

text \<open>What the routes are asked, and what they ask the upstream. A parameter is missing when
  the query has no such key or has the empty string for it; a keyword is blank when it
  is missing or made of white space only. A validation error is the reply with status 400
  and an error message.\<close>

definition missing :: "json \<Rightarrow> bool" where
  "missing v = (v = JUndefined \<or> v = JStr '''')"

definition blank :: "json \<Rightarrow> bool" where
  "blank v = (case v of JUndefined \<Rightarrow> True | JStr s \<Rightarrow> list_all white_space s | _ \<Rightarrow> False)"

definition validation_error :: "'n served \<Rightarrow> bool" where
  "validation_error r = (case reply r of Sent st (ErrorBody msg) \<Rightarrow> st = 400 | _ \<Rightarrow> False)"

definition event_url :: "'n env \<Rightarrow> string \<Rightarrow> string" where
  "event_url env eventId =
     TM_BASE @ ''/events/'' @ encodeURIComponent env eventId @ ''.json?apikey='' @ api_key env"

definition venue_url :: "'n env \<Rightarrow> string \<Rightarrow> string" where
  "venue_url env nameText =
     TM_BASE @ ''/venues.json?''
     @ URLSearchParams_toString env
         [(''apikey'', api_key env), (''keyword'', nameText), (''size'', ''1'')]"

definition suggest_url :: "'n env \<Rightarrow> string \<Rightarrow> string" where
  "suggest_url env keyword =
     TM_BASE @ ''/suggest?apikey='' @ api_key env
     @ ''&keyword='' @ encodeURIComponent env keyword"

text \<open>A suggest payload without a match: nothing embedded, or three lists that are absent
  or empty.\<close>

definition no_matches :: "json \<Rightarrow> bool" where
  "no_matches j =
     (\<not> nullish j \<and>
      (\<not> truthy (own j ''_embedded'')
       \<or> (own (own j ''_embedded'') ''attractions'' \<in> {JUndefined, JArr []}
          \<and> own (own j ''_embedded'') ''venues'' \<in> {JUndefined, JArr []}
          \<and> own (own j ''_embedded'') ''events'' \<in> {JUndefined, JArr []})))"

subsection \<open>Payloads the normalizers accept\<close>

text \<open>\<open>no_array v\<close>: the array a normalizer looks for is absent, empty, or not an array;
  \<open>elements v\<close>: the entries of an array, none for any other value.\<close>

definition no_array :: "json \<Rightarrow> bool" where
  "no_array v = (case v of JArr (x # xs) \<Rightarrow> False | _ \<Rightarrow> True)"

definition elements :: "json \<Rightarrow> json list" where
  "elements v = (case v of JArr xs \<Rightarrow> xs | _ \<Rightarrow> [])"

text \<open>When the data behind a field is absent, for the fields made of several parts: no
  image has a url; the first classification has none of its three names; the first price
  range has neither bound; there is no venue, or the venue has none of the parts of an
  address. An array that is absent, empty, or not an array is a case of each.\<close>

definition no_image_url :: "json \<Rightarrow> bool" where
  "no_image_url v = list_all (\<lambda>x. \<not> truthy (oget x ''url'')) (elements v)"

definition no_genre :: "json \<Rightarrow> bool" where
  "no_genre cs =
     (case cs of
        JArr (c # rest) \<Rightarrow>
          \<not> truthy (oget (oget c ''segment'') ''name'')
          \<and> \<not> truthy (oget (oget c ''genre'') ''name'')
          \<and> \<not> truthy (oget (oget c ''subGenre'') ''name'')
      | _ \<Rightarrow> True)"

definition no_price :: "json \<Rightarrow> bool" where
  "no_price v =
     (case v of
        JArr (r # rest) \<Rightarrow> nullish (oget r ''min'') \<and> nullish (oget r ''max'')
      | _ \<Rightarrow> True)"

definition no_address :: "json \<Rightarrow> bool" where
  "no_address v =
     (\<not> truthy v
      \<or> (\<not> truthy (oget v ''name'')
         \<and> \<not> truthy (oget (oget v ''address'') ''line1'')
         \<and> \<not> truthy (oget (oget v ''city'') ''name'')
         \<and> \<not> truthy (oget (oget v ''state'') ''stateCode'')
         \<and> \<not> truthy (oget v ''postalCode'')))"

text \<open>The first embedded venue, and a coordinate of a venue.\<close>

definition venue_of :: "json \<Rightarrow> json" where
  "venue_of j = oget0 (oget (oget j ''_embedded'') ''venues'')"

definition coord :: "json \<Rightarrow> string \<Rightarrow> json" where
  "coord v k = oget (oget v ''location'') k"

text \<open>The shapes below ask of a payload only what keeps the conversions from throwing:
  every part that is turned into text or into a number is absent or primitive, every
  entry that is read is not null. Any field may be absent.\<close>

definition images_like :: "json \<Rightarrow> bool" where
  "images_like v = (case v of JArr xs \<Rightarrow> list_all image_like xs | _ \<Rightarrow> True)"

definition genre_like :: "json \<Rightarrow> bool" where
  "genre_like cs =
     (case cs of
        JArr (c # rest) \<Rightarrow>
          primitive (oget (oget c ''segment'') ''name'')
          \<and> primitive (oget (oget c ''genre'') ''name'')
          \<and> primitive (oget (oget c ''subGenre'') ''name'')
      | _ \<Rightarrow> True)"

definition address_like :: "json \<Rightarrow> bool" where
  "address_like v =
     (primitive (oget v ''name'')
      \<and> primitive (oget (oget v ''address'') ''line1'')
      \<and> primitive (oget (oget v ''city'') ''name'')
      \<and> primitive (oget (oget v ''state'') ''stateCode'')
      \<and> primitive (oget v ''postalCode''))"

definition venue_like :: "json \<Rightarrow> bool" where
  "venue_like v =
     (address_like v \<and> primitive (coord v ''latitude'') \<and> primitive (coord v ''longitude''))"

definition artists_like :: "json \<Rightarrow> bool" where
  "artists_like v =
     (case v of JArr xs \<Rightarrow> list_all (\<lambda>a. \<not> nullish a) xs | _ \<Rightarrow> \<not> truthy v)"

definition status_like :: "json \<Rightarrow> bool" where
  "status_like c = (case c of JStr s \<Rightarrow> True | _ \<Rightarrow> \<not> truthy c)"

definition prices_like :: "json \<Rightarrow> bool" where
  "prices_like v =
     (case v of
        JArr (r # rest) \<Rightarrow> primitive (oget r ''min'') \<and> primitive (oget r ''max'')
      | _ \<Rightarrow> True)"

text \<open>An event as the search row reads it, and as the detail card reads it.\<close>

definition row_like :: "json \<Rightarrow> bool" where
  "row_like e =
     (\<not> nullish e \<and> images_like (oget e ''images'') \<and> genre_like (oget e ''classifications''))"

definition detail_like :: "json \<Rightarrow> bool" where
  "detail_like e =
     (\<not> nullish e
      \<and> artists_like (oget (oget e ''_embedded'') ''attractions'')
      \<and> address_like (venue_of e)
      \<and> status_like (oget (oget (oget e ''dates'') ''status'') ''code'')
      \<and> prices_like (oget e ''priceRanges'')
      \<and> genre_like (oget e ''classifications''))"

text \<open>The artist entry made of an attraction: its name and url as the upstream has them.\<close>

definition artist_of :: "json \<Rightarrow> json" where
  "artist_of a = JObj [(''name'', own a ''name''), (''url'', own a ''url'')]"

subsection \<open>Suggestions\<close>

text \<open>The specification's "removes duplicates keeping the first occurrence": an element is
  kept unless it was seen before.\<close>

fun keep_first :: "'a list \<Rightarrow> 'a list \<Rightarrow> 'a list" where
  "keep_first seen [] = []"
| "keep_first seen (x # xs) =
     (if x \<in> set seen then keep_first seen xs else x # keep_first (x # seen) xs)"

text \<open>The same on names of any kind: a name is dropped when it is primitive and an equal
  name was seen before. Two names that are arrays or objects are never the same value.\<close>

fun keep_first_value :: "json list \<Rightarrow> json list \<Rightarrow> json list" where
  "keep_first_value seen [] = []"
| "keep_first_value seen (x # xs) =
     (if primitive x \<and> x \<in> set seen then keep_first_value seen xs
      else x # keep_first_value (x # seen) xs)"

text \<open>The names of one list of a suggest payload; the three lists in the order attractions,
  venues, events; and a payload whose lists are absent or arrays without a null entry.\<close>

definition entry_names :: "json \<Rightarrow> json list" where
  "entry_names v = (case v of JArr xs \<Rightarrow> map (\<lambda>x. own x ''name'') xs | _ \<Rightarrow> [])"

definition entry_array :: "json \<Rightarrow> bool" where
  "entry_array v =
     (case v of
        JUndefined \<Rightarrow> True
      | JArr xs \<Rightarrow> list_all (\<lambda>x. \<not> nullish x) xs
      | _ \<Rightarrow> False)"

definition all_names :: "json \<Rightarrow> json list" where
  "all_names j =
     entry_names (own (own j ''_embedded'') ''attractions'')
     @ entry_names (own (own j ''_embedded'') ''venues'')
     @ entry_names (own (own j ''_embedded'') ''events'')"

definition suggest_payload :: "json \<Rightarrow> bool" where
  "suggest_payload j =
     (\<not> nullish j \<and> truthy (own j ''_embedded'')
      \<and> entry_array (own (own j ''_embedded'') ''attractions'')
      \<and> entry_array (own (own j ''_embedded'') ''venues'')
      \<and> entry_array (own (own j ''_embedded'') ''events''))"

subsection \<open>A runtime and payloads for the examples\<close>

text \<open>The examples below run the routes against a runtime whose upstream is the given
  function. What the examples state does not depend on the conversions between numbers
  and text nor on the geohash, so these are held at a fixed value; a double is \<open>()\<close>.
  The upstream of \<open>offline\<close> cannot be reached; the upstream of \<open>answering st parsed\<close>
  answers every request with status \<open>st\<close> and the parsed body \<open>parsed\<close>, \<open>None\<close> for a body
  that is not JSON.\<close>

definition example_env :: "(string \<Rightarrow> upstream) \<Rightarrow> unit env" where
  "example_env f =
     \<lparr>TM_API_KEY = Some ''KEY'',
      fetch = f,
      NumberToString = (\<lambda>n. ''0''),
      StringToNumber = (\<lambda>s. None),
      PrimitiveToDouble = (\<lambda>v. ()),
      toFixed2 = (\<lambda>d. ''0.00''),
      parseFloat = (\<lambda>s. ()),
      ngeohash_encode = (\<lambda>a b p. replicate p CHR ''0''),
      encodeURIComponent = (\<lambda>s. s),
      URLSearchParams_toString =
        (\<lambda>ps. join_strings ''&'' (map (\<lambda>(k, v). k @ ''='' @ v) ps)),
      Object_prototype = (\<lambda>k. None)\<rparr>"

definition offline :: "unit env" where
  "offline = example_env (\<lambda>url. NetworkError)"

definition answering :: "nat \<Rightarrow> json option \<Rightarrow> unit env" where
  "answering st parsed = example_env (\<lambda>url. Response st parsed)"

definition events_object :: json where
  "events_object = JObj [(''_embedded'', JObj [(''events'', JObj [])])]"

definition image_a :: json where
  "image_a = JObj [(''url'', JStr ''a''), (''width'', JNum 100), (''height'', JNum 100)]"

definition image_b :: json where
  "image_b = JObj [(''url'', JStr ''b''), (''width'', JNum 50), (''height'', JNum 10)]"

definition image_square_no_url :: json where
  "image_square_no_url =
     JObj [(''url'', JStr ''''), (''width'', JNum 100), (''height'', JNum 100)]"

definition named :: "string \<Rightarrow> json" where
  "named s = JObj [(''name'', JStr s)]"

definition suggest_example :: json where
  "suggest_example =
     JObj [(''_embedded'',
            JObj [(''attractions'', JArr [named ''A'', named ''B'']),
                  (''venues'', JArr [named ''B'', named ''C'']),
                  (''events'', JArr [named ''A''])])]"

definition suggest_mixed :: json where
  "suggest_mixed =
     JObj [(''_embedded'',
            JObj [(''attractions'', JArr [named ''A'', named ''B'', JObj [], named ''A''])])]"

definition venue_payload :: "json \<Rightarrow> json" where
  "venue_payload v = JObj [(''_embedded'', JObj [(''venues'', JArr [v])])]"

definition venue_north :: json where
  "venue_north =
     JObj [(''name'', JStr ''The Forum''),
           (''location'', JObj [(''latitude'', JStr ''33.9583'')])]"

definition venue_null_island :: json where
  "venue_null_island =
     JObj [(''name'', JStr ''Null Island''),
           (''location'', JObj [(''latitude'', JNum 0), (''longitude'', JNum 0)])]"

definition event_bare :: json where
  "event_bare = JObj [(''id'', JStr ''E1'')]"

definition event_hollow :: json where
  "event_hollow =
     JObj [(''id'', JStr ''E4''),
           (''images'', JArr [JObj []]),
           (''classifications'', JArr [JObj []]),
           (''priceRanges'', JArr [JObj []]),
           (''_embedded'',
              JObj [(''venues'', JArr [JObj []]), (''attractions'', JArr [JObj []])])]"

definition event_no_id :: json where
  "event_no_id =
     JObj [(''name'', JStr ''Show''),
           (''_embedded'', JObj [(''attractions'', JArr [JObj [(''url'', JStr ''u'')]])])]"

section \<open>Basic facts\<close>

lemma andThen_simps [simp]:
  "andThen (Inl e) f = Inl e"
  "andThen (Inr v) f = f v"
  by (simp_all add: andThen_def)

lemma ToNumber_primitive: "primitive v \<Longrightarrow> \<exists>n. ToNumber env v = Inr n"
  by (cases v) (simp_all add: primitive_def ToNumber_def)

lemma ToString_primitive: "primitive v \<Longrightarrow> \<exists>s. ToString ns v = Inr s"
  by (cases v) (simp_all add: primitive_def)

lemma fetch_answering [simp]: "fetch (answering st parsed) url = Response st parsed"
  by (simp add: answering_def example_env_def)

lemma fetch_offline [simp]: "fetch offline url = NetworkError"
  by (simp add: offline_def example_env_def)

section \<open>ticketStatusColor\<close>

lemma sublist_map_iff: "sublist p (map f s) \<longleftrightarrow> (\<exists>w. sublist w s \<and> map f w = p)"
proof
  assume "sublist p (map f s)"
  then obtain a b where "map f s = a @ p @ b"
    by (auto simp: sublist_def)
  then have "\<exists>us vs. s = us @ vs \<and> a = map f us \<and> p @ b = map f vs"
    by (simp only: map_eq_append_conv)
  then obtain us vs where s: "s = us @ vs" and vs: "p @ b = map f vs"
    by blast
  from vs have "\<exists>w b'. vs = w @ b' \<and> p = map f w \<and> b = map f b'"
    by (simp only: append_eq_map_conv)
  then obtain w b' where "vs = w @ b'" "map f w = p"
    by blast
  with s have "s = us @ w @ b'" "map f w = p"
    by simp_all
  then show "\<exists>w. sublist w s \<and> map f w = p"
    by (auto simp: sublist_def)
next
  assume "\<exists>w. sublist w s \<and> map f w = p"
  then obtain w a b where "s = a @ w @ b" "map f w = p"
    by (auto simp: sublist_def)
  then have "map f s = map f a @ p @ map f b"
    by simp
  then show "sublist p (map f s)"
    unfolding sublist_def by blast
qed

lemma char_of_eq_iff:
  assumes "n < 256"
  shows "(char_of n = d) \<longleftrightarrow> ((of_char d :: nat) = n)"
proof
  assume "char_of n = d"
  then have "(of_char d :: nat) = of_char (char_of n)"
    by simp
  also have "\<dots> = n mod 256"
    by (simp only: of_char_of)
  finally show "(of_char d :: nat) = n"
    using \<open>n < 256\<close> by simp
next
  assume "(of_char d :: nat) = n"
  then have "char_of n = char_of (of_char d :: nat)"
    by simp
  then show "char_of n = d"
    by (simp only: char_of_char)
qed

lemma capital_bound: "capital c \<Longrightarrow> (of_char c :: nat) + 32 < 256"
  by (auto simp: capital_def Let_def)

lemma lower_char_capital: "capital c \<Longrightarrow> lower_char c = char_of ((of_char c :: nat) + 32)"
  by (simp add: lower_char_def capital_def Let_def)

lemma lower_char_small: "\<not> capital c \<Longrightarrow> lower_char c = c"
  by (auto simp: lower_char_def capital_def Let_def)

lemma lower_char_same_letter:
  assumes "\<not> capital d"
  shows "lower_char c = d \<longleftrightarrow> same_letter c d"
proof (cases "capital c")
  case True
  have "char_of ((of_char c :: nat) + 32) = d \<longleftrightarrow> (of_char d :: nat) = of_char c + 32"
    using capital_bound[OF True] by (rule char_of_eq_iff)
  moreover have "c \<noteq> d"
    using True assms by auto
  ultimately show ?thesis
    using True assms by (simp add: lower_char_capital same_letter_def)
next
  case False
  then show ?thesis
    using assms by (simp add: lower_char_small same_letter_def)
qed

lemma map_lower_char_same_letters:
  "list_all (\<lambda>d. \<not> capital d) p \<Longrightarrow> map lower_char w = p \<longleftrightarrow> list_all2 same_letter w p"
proof (induction p arbitrary: w)
  case Nil
  then show ?case by simp
next
  case (Cons d p)
  show ?case
  proof (cases w)
    case Nil
    then show ?thesis by simp
  next
    case (Cons c w')
    then show ?thesis
      using Cons.IH[of w'] Cons.prems lower_char_same_letter[of d c] by simp
  qed
qed

lemma status_words_small:
  "list_all (\<lambda>d. \<not> capital d) ''onsale''"
  "list_all (\<lambda>d. \<not> capital d) ''offsale''"
  "list_all (\<lambda>d. \<not> capital d) ''cancel''"
  "list_all (\<lambda>d. \<not> capital d) ''postpon''"
  "list_all (\<lambda>d. \<not> capital d) ''resched''"
  by (simp_all add: capital_def)

lemma str_includes_small:
  "list_all (\<lambda>d. \<not> capital d) p \<Longrightarrow> str_includes (toLowerCase s) p = contains_ignoring_case s p"
  by (simp add: str_includes_def contains_ignoring_case_def toLowerCase_def sublist_map_iff
                map_lower_char_same_letters)

lemmas str_includes_status_words =
  str_includes_small[OF status_words_small(1)]
  str_includes_small[OF status_words_small(2)]
  str_includes_small[OF status_words_small(3)]
  str_includes_small[OF status_words_small(4)]
  str_includes_small[OF status_words_small(5)]

text \<open>
  Claim C9. For every status code string, \<open>ticketStatusColor\<close> classifies by
  case-insensitive substring in the fixed order: "onsale" gives green, then "offsale"
  red, then "cancel" black, then "postpon" or "resched" orange; the first rule that
  matches wins, and anything else, the empty string included, gives gray.
\<close>

theorem ticketStatusColor_classifies:
  "ticketStatusColor (JStr s) =
     Inr (JStr (if contains_ignoring_case s ''onsale'' then ''green''
                else if contains_ignoring_case s ''offsale'' then ''red''
                else if contains_ignoring_case s ''cancel'' then ''black''
                else if contains_ignoring_case s ''postpon''
                        \<or> contains_ignoring_case s ''resched'' then ''orange''
                else ''gray''))"
proof -
  have "or_else (JStr s) (JStr '''') = JStr s"
    by (simp add: or_else_def)
  then show ?thesis
    by (simp add: ticketStatusColor_def Let_def str_includes_status_words)
qed

text \<open>The examples of the specification, and a code in capitals.\<close>

lemma ticketStatusColor_examples:
  "ticketStatusColor (JStr ''offsale'') = Inr (JStr ''red'')"
  "ticketStatusColor (JStr ''rescheduled'') = Inr (JStr ''orange'')"
  "ticketStatusColor (JStr '''') = Inr (JStr ''gray'')"
  "ticketStatusColor (JStr ''OnSale'') = Inr (JStr ''green'')"
  by code_simp+

text \<open>A code that is absent is read as the empty string; a code that is a number, an array
  or an object has no \<^verbatim>\<open>toLowerCase\<close>.\<close>

lemma ticketStatusColor_absent: "ticketStatusColor JUndefined = Inr (JStr ''gray'')"
  by code_simp

lemma ticketStatusColor_number: "ticketStatusColor (JNum 5) = Inl TypeError"
  by code_simp

section \<open>pickImage\<close>

subsection \<open>The sort on images\<close>

lemma squareness_image:
  "is_image x \<Longrightarrow> squareness env x = Inr (Some (image_diff x))"
  by (auto simp: is_image_def squareness_def image_diff_def get_def ToNumber_def num_sub_def
           split: json.splits)

lemma compare_images_image:
  "is_image x \<Longrightarrow> is_image y \<Longrightarrow>
   compare_images env x y = Inr (Some (image_diff x - image_diff y))"
  by (simp add: compare_images_def squareness_image num_sub_def)

lemma insert_sorted_images:
  "is_image x \<Longrightarrow> list_all is_image ys \<Longrightarrow>
   insert_sorted (compare_images env) x ys = Inr (insort_key image_diff x ys)"
  by (induction ys) (simp_all add: compare_images_image)

lemma list_all_insort_key: "P x \<Longrightarrow> list_all P ys \<Longrightarrow> list_all P (insort_key f x ys)"
  by (induction ys) simp_all

lemma array_sort_images:
  "list_all is_image xs \<Longrightarrow>
   array_sort (compare_images env) xs = Inr (sort_key image_diff xs)
   \<and> list_all is_image (sort_key image_diff xs)"
  by (induction xs) (simp_all add: insert_sorted_images list_all_insort_key)

lemma hd_insort_key:
  "hd (insort_key f x ys) = (if ys = [] \<or> f x \<le> f (hd ys) then x else hd ys)"
  by (cases ys) simp_all

lemma sort_key_eq_Nil: "sort_key f xs = [] \<longleftrightarrow> xs = []"
  by (metis length_sort list.size(3) length_0_conv)

text \<open>The head of a stably sorted list is the first of the least elements.\<close>

lemma hd_sort_key_first_min:
  "xs \<noteq> [] \<Longrightarrow>
   \<exists>i<length xs. hd (sort_key f xs) = xs ! i
      \<and> (\<forall>j<length xs. f (xs ! i) \<le> f (xs ! j))
      \<and> (\<forall>j<i. f (xs ! i) < f (xs ! j))"
proof (induction xs)
  case Nil
  then show ?case by simp
next
  case (Cons x xs)
  show ?case
  proof (cases "xs = []")
    case True
    then show ?thesis by simp
  next
    case False
    with Cons.IH obtain i where i: "i < length xs" "hd (sort_key f xs) = xs ! i"
      "\<forall>j<length xs. f (xs ! i) \<le> f (xs ! j)" "\<forall>j<i. f (xs ! i) < f (xs ! j)"
      by blast
    have hd: "hd (sort_key f (x # xs)) = (if f x \<le> f (xs ! i) then x else xs ! i)"
      using False i(2) by (simp add: hd_insort_key sort_key_eq_Nil)
    show ?thesis
    proof (cases "f x \<le> f (xs ! i)")
      case True
      have "\<forall>j<length (x # xs). f ((x # xs) ! 0) \<le> f ((x # xs) ! j)"
      proof (intro allI impI)
        fix j assume "j < length (x # xs)"
        then show "f ((x # xs) ! 0) \<le> f ((x # xs) ! j)"
          using True i(3) by (cases j) (auto intro: order_trans)
      qed
      with True hd show ?thesis
        by (intro exI[of _ 0]) simp
    next
      case later: False
      have least: "\<forall>j<length (x # xs). f ((x # xs) ! Suc i) \<le> f ((x # xs) ! j)"
      proof (intro allI impI)
        fix j assume "j < length (x # xs)"
        then show "f ((x # xs) ! Suc i) \<le> f ((x # xs) ! j)"
          using later i(3) by (cases j) auto
      qed
      have earliest: "\<forall>j<Suc i. f ((x # xs) ! Suc i) < f ((x # xs) ! j)"
      proof (intro allI impI)
        fix j assume "j < Suc i"
        then show "f ((x # xs) ! Suc i) < f ((x # xs) ! j)"
          using later i(4) by (cases j) auto
      qed
      from later hd least earliest i(1) show ?thesis
        by (intro exI[of _ "Suc i"]) simp
    qed
  qed
qed

subsection \<open>No throw on comparable entries\<close>

lemma squareness_image_like: "image_like x \<Longrightarrow> \<exists>k. squareness env x = Inr k"
proof -
  assume a: "image_like x"
  obtain n where n: "ToNumber env (own x ''width'') = Inr n"
    using a ToNumber_primitive by (auto simp: image_like_def)
  obtain m where m: "ToNumber env (own x ''height'') = Inr m"
    using a ToNumber_primitive by (auto simp: image_like_def)
  show ?thesis
    using a n m by (simp add: squareness_def get_def image_like_def)
qed

lemma compare_images_image_like:
  "image_like x \<Longrightarrow> image_like y \<Longrightarrow> \<exists>d. compare_images env x y = Inr d"
  using squareness_image_like[of x env] squareness_image_like[of y env]
  by (auto simp: compare_images_def)

lemma insert_sorted_image_like:
  "image_like x \<Longrightarrow> list_all image_like ys \<Longrightarrow>
   \<exists>zs. insert_sorted (compare_images env) x ys = Inr zs \<and> list_all image_like zs"
proof (induction ys)
  case Nil
  then show ?case by simp
next
  case (Cons y ys)
  then obtain d where d: "compare_images env x y = Inr d"
    using compare_images_image_like[of x y env] by auto
  from Cons obtain zs where
    "insert_sorted (compare_images env) x ys = Inr zs" "list_all image_like zs"
    by auto
  with d Cons.prems show ?case by simp
qed

lemma array_sort_image_like:
  "list_all image_like xs \<Longrightarrow>
   \<exists>zs. array_sort (compare_images env) xs = Inr zs \<and> list_all image_like zs"
proof (induction xs)
  case Nil
  then show ?case by simp
next
  case (Cons x xs)
  then obtain ys where "array_sort (compare_images env) xs = Inr ys" "list_all image_like ys"
    by auto
  with Cons.prems insert_sorted_image_like[of x ys env] show ?case by auto
qed

lemma pickImage_image_like:
  assumes "list_all image_like imgs"
  shows "\<exists>r. pickImage env (JArr imgs) = Inr r"
proof (cases imgs)
  case Nil
  then show ?thesis by (simp add: pickImage_def)
next
  case (Cons first rest)
  with assms obtain zs where "array_sort (compare_images env) (first # rest) = Inr zs"
    using array_sort_image_like[of imgs env] by auto
  moreover have "\<not> nullish first"
    using assms Cons by (simp add: image_like_def)
  ultimately show ?thesis
    using Cons by (simp add: pickImage_def Let_def get_def)
qed

lemma is_image_like: "is_image x \<Longrightarrow> image_like x"
  by (auto simp: is_image_def image_like_def primitive_def split: json.splits)

subsection \<open>The image that is picked\<close>

lemma pickImage_first_min:
  assumes "imgs \<noteq> []" and "list_all is_image imgs"
  shows "\<exists>i<length imgs.
           (\<forall>j<length imgs. image_diff (imgs ! i) \<le> image_diff (imgs ! j))
         \<and> (\<forall>j<i. image_diff (imgs ! i) < image_diff (imgs ! j))
         \<and> pickImage env (JArr imgs) =
             Inr (if truthy (own (imgs ! i) ''url'') then own (imgs ! i) ''url''
                  else or_else (own (imgs ! 0) ''url'') (JStr ''''))"
proof -
  obtain first rest where imgs: "imgs = first # rest"
    using assms(1) by (cases imgs) auto
  obtain i where i: "i < length imgs" "hd (sort_key image_diff imgs) = imgs ! i"
      "\<forall>j<length imgs. image_diff (imgs ! i) \<le> image_diff (imgs ! j)"
      "\<forall>j<i. image_diff (imgs ! i) < image_diff (imgs ! j)"
    using hd_sort_key_first_min[OF assms(1), of image_diff] by blast
  have sorted: "array_sort (compare_images env) imgs = Inr (sort_key image_diff imgs)"
    using assms(2) by (simp add: array_sort_images)
  have "sort_key image_diff imgs \<noteq> []"
    using assms(1) by (simp add: sort_key_eq_Nil)
  then have own0: "own0 (JArr (sort_key image_diff imgs)) = imgs ! i"
    using i(2) by (cases "sort_key image_diff imgs") simp_all
  have "is_image (imgs ! i)"
    using assms(2) i(1) by (simp add: list_all_length)
  moreover have "is_image first"
    using assms(2) by (simp add: imgs)
  ultimately have "\<not> nullish (imgs ! i)" "\<not> nullish first"
    by (auto simp: is_image_def split: json.splits)
  then have "pickImage env (JArr imgs) =
          Inr (if truthy (own (imgs ! i) ''url'') then own (imgs ! i) ''url''
               else or_else (own (imgs ! 0) ''url'') (JStr ''''))"
    using sorted own0 unfolding imgs pickImage_def
    by (simp add: Let_def oget_def get_def)
  with i show ?thesis by blast
qed

lemma pickImage_not_array:
  "\<forall>xs. images \<noteq> JArr xs \<Longrightarrow> pickImage env images = Inr (JStr '''')"
  by (cases images) (simp_all add: pickImage_def)

text \<open>
  What \<open>pickImage\<close> does on the inputs it is written for. For every array of image objects
  whose width and height are integers below \<open>2 ^ 51\<close> in magnitude, it looks at the first
  image, in array order, whose \<open>|width - height|\<close> is least. It returns the url of that
  image when the url is a non-empty string (or any other truthy value); when that url is
  empty or absent it falls back to the url of the first image of the array, and to the
  empty string when that one is empty or absent too. For an empty array and for a value
  that is no array it returns the empty string. It returns, without a throw, on every
  array whose entries are not null and have a width and a height that are absent or
  primitive.
\<close>

theorem pickImage_most_square:
  "(imgs \<noteq> [] \<and> list_all is_image imgs \<longrightarrow>
      (\<exists>i<length imgs.
           (\<forall>j<length imgs. image_diff (imgs ! i) \<le> image_diff (imgs ! j))
         \<and> (\<forall>j<i. image_diff (imgs ! i) < image_diff (imgs ! j))
         \<and> pickImage env (JArr imgs) =
             Inr (if truthy (own (imgs ! i) ''url'') then own (imgs ! i) ''url''
                  else or_else (own (imgs ! 0) ''url'') (JStr ''''))))
   \<and> pickImage env (JArr []) = Inr (JStr '''')
   \<and> ((\<forall>xs. images \<noteq> JArr xs) \<longrightarrow> pickImage env images = Inr (JStr ''''))
   \<and> (list_all image_like imgs \<longrightarrow> (\<exists>r. pickImage env (JArr imgs) = Inr r))"
proof (intro conjI impI)
  assume "imgs \<noteq> [] \<and> list_all is_image imgs"
  then show "\<exists>i<length imgs.
           (\<forall>j<length imgs. image_diff (imgs ! i) \<le> image_diff (imgs ! j))
         \<and> (\<forall>j<i. image_diff (imgs ! i) < image_diff (imgs ! j))
         \<and> pickImage env (JArr imgs) =
             Inr (if truthy (own (imgs ! i) ''url'') then own (imgs ! i) ''url''
                  else or_else (own (imgs ! 0) ''url'') (JStr ''''))"
    using pickImage_first_min[of imgs env] by blast
next
  show "pickImage env (JArr []) = Inr (JStr '''')"
    by (simp add: pickImage_def)
next
  assume "\<forall>xs. images \<noteq> JArr xs"
  then show "pickImage env images = Inr (JStr '''')"
    by (rule pickImage_not_array)
next
  assume "list_all image_like imgs"
  then show "\<exists>r. pickImage env (JArr imgs) = Inr r"
    by (rule pickImage_image_like)
qed

text \<open>The example of the specification: of a square image and a wide one, the square one is
  picked; a missing array gives the empty string.\<close>

theorem pickImage_most_square_witness:
  "list_all is_image [image_a, image_b]
   \<and> pickImage offline (JArr [image_a, image_b]) = Inr (JStr ''a'')
   \<and> pickImage offline JUndefined = Inr (JStr '''')
   \<and> list_all image_like [image_a, image_b]"
proof -
  let ?imgs = "[image_a, image_b]"
  note inst = pickImage_most_square[of ?imgs offline JUndefined]
  have im: "list_all is_image ?imgs"
    by (simp add: is_image_def image_a_def image_b_def)
  have d: "image_diff image_a = 0" "image_diff image_b = 40"
    by (simp_all add: image_diff_def image_a_def image_b_def)
  from inst im obtain i where i: "i < length ?imgs"
      "\<forall>j<length ?imgs. image_diff (?imgs ! i) \<le> image_diff (?imgs ! j)"
    and r: "pickImage offline (JArr ?imgs) =
             Inr (if truthy (own (?imgs ! i) ''url'') then own (?imgs ! i) ''url''
                  else or_else (own (?imgs ! 0) ''url'') (JStr ''''))"
    by blast
  have "0 < length ?imgs"
    by simp
  with i(2) have "image_diff (?imgs ! i) \<le> image_diff (?imgs ! 0)"
    by blast
  with i(1) d have "i = 0"
    by (cases i) simp_all
  with r have picked: "pickImage offline (JArr ?imgs) = Inr (JStr ''a'')"
    by (simp add: image_a_def)
  have missing: "pickImage offline JUndefined = Inr (JStr '''')"
    using inst by simp
  have like: "list_all image_like ?imgs"
    using im by (simp add: is_image_like)
  from im picked missing like show ?thesis
    by simp
qed

text \<open>The fallback at work: the square image has an empty url, and the url returned is that
  of the first image, which is 40 away from a square.\<close>

theorem pickImage_fallback_counterexample:
  "pickImage offline (JArr [image_b, image_square_no_url]) = Inr (JStr ''b'')
   \<and> own image_b ''url'' = JStr ''b''
   \<and> image_diff image_b = 40
   \<and> image_diff image_square_no_url = 0"
  by (simp add: pickImage_def oget_def get_def image_b_def image_square_no_url_def
                compare_images_def squareness_def ToNumber_def num_sub_def or_else_def
                image_diff_def)

text \<open>When every image has a url that is a non-empty string, the url returned is the url
  of the first of the most square images.\<close>

lemma pickImage_selects:
  assumes "imgs \<noteq> []" and "list_all is_image imgs"
    and "list_all (\<lambda>x. truthy (own x ''url'')) imgs"
  shows "\<exists>i<length imgs.
           (\<forall>j<length imgs. image_diff (imgs ! i) \<le> image_diff (imgs ! j))
         \<and> (\<forall>j<i. image_diff (imgs ! i) < image_diff (imgs ! j))
         \<and> pickImage env (JArr imgs) = Inr (own (imgs ! i) ''url'')"
proof -
  obtain i where i: "i < length imgs"
      "\<forall>j<length imgs. image_diff (imgs ! i) \<le> image_diff (imgs ! j)"
      "\<forall>j<i. image_diff (imgs ! i) < image_diff (imgs ! j)"
      "pickImage env (JArr imgs) =
             Inr (if truthy (own (imgs ! i) ''url'') then own (imgs ! i) ''url''
                  else or_else (own (imgs ! 0) ''url'') (JStr ''''))"
    using pickImage_first_min[OF assms(1,2), of env] by blast
  have "truthy (own (imgs ! i) ''url'')"
    using assms(3) i(1) by (simp add: list_all_length)
  with i show ?thesis
    by auto
qed

text \<open>
  Claim C8 says of \<open>pickImage\<close> that it picks the url of a most square image, ties by array
  order, gives the empty string for an empty or missing array, and never throws on any
  input. The first parts are the theorems above. The last part fails: an entry of the
  array that is null is read without a guard (\<^verbatim>\<open>images[0].url\<close>, and \<^verbatim>\<open>a.width\<close> in the
  comparator), beside the guarded \<^verbatim>\<open>sorted[0]?.url\<close>, and the read throws.
\<close>

theorem pickImage_null_entry: "pickImage offline (JArr [JNull]) = Inl TypeError"
  by (simp add: pickImage_def oget_def get_def)

lemma pickImage_null_entry_any: "pickImage env (JArr [JNull]) = Inl TypeError"
  by (simp add: pickImage_def oget_def get_def)

lemma pickImage_null_among: "pickImage env (JArr [image_a, JNull]) = Inl TypeError"
  by (simp add: pickImage_def compare_images_def squareness_def get_def image_a_def
                ToNumber_def num_sub_def)

section \<open>Validation\<close>

text \<open>
  Claim C4. For every search call with an empty keyword or a missing lat or lng, and for
  every venue call with a missing name, a validation error is surfaced at once and no
  upstream call is attempted.
\<close>

theorem validation_before_fetch:
  "(missing (own query ''keyword'') \<or> missing (own query ''lat'') \<or> missing (own query ''lng'')
      \<longrightarrow> validation_error (route_search env query) \<and> fetched (route_search env query) = [])
   \<and> (missing (own vquery ''name'')
      \<longrightarrow> validation_error (route_venue env vquery) \<and> fetched (route_venue env vquery) = [])"
  by (auto simp: route_search_def route_venue_def validation_error_def Let_def dflt_def
                 missing_def)

text \<open>The search of the specification with an empty keyword, a search without lat, and a
  venue lookup without a name.\<close>

theorem validation_before_fetch_witness:
  "validation_error (route_search offline
       (JObj [(''keyword'', JStr ''''), (''distance'', JStr ''10''), (''lat'', JStr ''34''),
              (''lng'', JStr ''-118'')]))
   \<and> fetched (route_search offline
       (JObj [(''keyword'', JStr ''''), (''distance'', JStr ''10''), (''lat'', JStr ''34''),
              (''lng'', JStr ''-118'')])) = []
   \<and> validation_error
        (route_search offline (JObj [(''keyword'', JStr ''rock''), (''lng'', JStr ''-118'')]))
   \<and> fetched
        (route_search offline (JObj [(''keyword'', JStr ''rock''), (''lng'', JStr ''-118'')])) = []
   \<and> validation_error (route_venue offline (JObj []))
   \<and> fetched (route_venue offline (JObj [])) = []"
  using validation_before_fetch[of "JObj [(''keyword'', JStr ''''), (''distance'', JStr ''10''),
              (''lat'', JStr ''34''), (''lng'', JStr ''-118'')]" offline "JObj []"]
        validation_before_fetch[of "JObj [(''keyword'', JStr ''rock''), (''lng'', JStr ''-118'')]"
              offline "JObj []"]
  by (simp add: missing_def)

section \<open>Coordinates of a search\<close>

text \<open>
  Claim C10. For every search call, any non-empty lat and lng query strings pass
  validation: no numeric or range check is made on them. They are converted with
  \<^verbatim>\<open>parseFloat\<close> (a NaN for a text that is no number) and the two doubles are encoded as a
  geohash of precision 7, which is the \<^verbatim>\<open>geoPoint\<close> of the one request sent upstream.
\<close>

theorem search_coordinates_unchecked:
  assumes "own query ''keyword'' = JStr k" and "k \<noteq> []"
    and "own query ''lat'' = JStr a" and "a \<noteq> []"
    and "own query ''lng'' = JStr b" and "b \<noteq> []"
    and "primitive (own query ''distance'')" and "primitive (own query ''category'')"
  shows "\<exists>params.
           fetched (route_search env query)
             = [TM_BASE @ ''/events.json?'' @ URLSearchParams_toString env params]
         \<and> map_of params ''geoPoint''
             = Some (ngeohash_encode env (parseFloat env a) (parseFloat env b) 7)
         \<and> \<not> validation_error (route_search env query)"
proof -
  let ?distance = "dflt (own query ''distance'') (JStr ''10'')"
  let ?category = "dflt (own query ''category'') (JStr ''Default'')"
  have "primitive (or_else ?distance (JStr ''10''))"
    using assms(7) by (simp add: dflt_def or_else_def primitive_def)
  then obtain radius where radius:
    "ToString (NumberToString env) (or_else ?distance (JStr ''10'')) = Inr radius"
    using ToString_primitive by blast
  have "primitive ?category"
    using assms(8) by (simp add: dflt_def primitive_def)
  then obtain cat where cat: "ToString (NumberToString env) ?category = Inr cat"
    using ToString_primitive by blast
  let ?gp = "ngeohash_encode env (parseFloat env a) (parseFloat env b) 7"
  let ?params = "[(''apikey'', api_key env), (''keyword'', k), (''radius'', radius),
                  (''unit'', ''miles''), (''geoPoint'', ?gp)]"
  let ?params2 = "case segment_of env cat of
                    Some seg \<Rightarrow> ?params @ [(''segmentId'', seg)] | None \<Rightarrow> ?params"
  have url: "search_url env (JStr k) ?distance ?category (JStr a) (JStr b)
              = Inr (TM_BASE @ ''/events.json?'' @ URLSearchParams_toString env ?params2)"
    using radius cat by (simp add: search_url_def Let_def)
  have gp: "map_of ?params2 ''geoPoint'' = Some ?gp"
    by (simp split: option.splits)
  have kw: "dflt (own query ''keyword'') (JStr '''') = JStr k"
    using assms(1) by (simp add: dflt_def)
  have f: "fetched (route_search env query)
             = [TM_BASE @ ''/events.json?'' @ URLSearchParams_toString env ?params2]"
    using assms(2-6) kw url
    by (simp add: route_search_def Let_def split: upstream.splits option.splits sum.splits)
  have v: "\<not> validation_error (route_search env query)"
    using assms(2-6) kw url
    by (simp add: route_search_def Let_def validation_error_def
             split: upstream.splits option.splits sum.splits)
  from f gp v show ?thesis by blast
qed

text \<open>A latitude that is no number and a longitude out of range, on any runtime.\<close>

theorem search_coordinates_unchecked_witness:
  "\<forall>env :: 'n env. \<exists>params.
      fetched (route_search env
         (JObj [(''keyword'', JStr ''rock''), (''lat'', JStr ''north''), (''lng'', JStr ''999'')]))
        = [TM_BASE @ ''/events.json?'' @ URLSearchParams_toString env params]
    \<and> map_of params ''geoPoint''
        = Some (ngeohash_encode env (parseFloat env ''north'') (parseFloat env ''999'') 7)
    \<and> \<not> validation_error (route_search env
         (JObj [(''keyword'', JStr ''rock''), (''lat'', JStr ''north''), (''lng'', JStr ''999'')]))"
proof
  fix env :: "'n env"
  show "\<exists>params.
      fetched (route_search env
         (JObj [(''keyword'', JStr ''rock''), (''lat'', JStr ''north''), (''lng'', JStr ''999'')]))
        = [TM_BASE @ ''/events.json?'' @ URLSearchParams_toString env params]
    \<and> map_of params ''geoPoint''
        = Some (ngeohash_encode env (parseFloat env ''north'') (parseFloat env ''999'') 7)
    \<and> \<not> validation_error (route_search env
         (JObj [(''keyword'', JStr ''rock''), (''lat'', JStr ''north''), (''lng'', JStr ''999'')]))"
    by (rule search_coordinates_unchecked[of _ "''rock''"]) (simp_all add: primitive_def)
qed

section \<open>Failures of the upstream\<close>

text \<open>
  Claim C1, as the code has it. The detail lookup answers every upstream status outside
  200 to 299 (a 404 and a 500 alike) with that status and the message "event not found":
  none of them is handed on as a failure. The venue lookup hands every such status on as
  a failure, a 404 included; it returns null only when a successful answer embeds no
  venue. In both lookups an upstream that cannot be reached and a body that is not JSON
  are handed on as a failure.
\<close>

theorem lookup_failures:
  "(fetch env (event_url env eventId) = Response st parsed \<and> \<not> ok st \<longrightarrow>
      route_event env eventId =
        \<lparr>reply = Sent st (ErrorBody ''event not found''), fetched = [event_url env eventId]\<rparr>)
   \<and> (fetch env (event_url env eventId) = NetworkError \<longrightarrow>
      reply (route_event env eventId) = Forwarded FetchRejected)
   \<and> (fetch env (event_url env eventId) = Response st None \<and> ok st \<longrightarrow>
      reply (route_event env eventId) = Forwarded JsonRejected)
   \<and> (own query ''name'' = JStr n \<and> n \<noteq> [] \<longrightarrow>
        (fetch env (venue_url env n) = Response st parsed \<and> \<not> ok st \<longrightarrow>
           reply (route_venue env query) = Forwarded (UpstreamFailed ''TM venue failed: '' st))
      \<and> (fetch env (venue_url env n) = NetworkError \<longrightarrow>
           reply (route_venue env query) = Forwarded FetchRejected)
      \<and> (fetch env (venue_url env n) = Response st None \<and> ok st \<longrightarrow>
           reply (route_venue env query) = Forwarded JsonRejected)
      \<and> (fetch env (venue_url env n) = Response st (Some j) \<and> ok st
            \<and> \<not> truthy (oget0 (oget (oget j ''_embedded'') ''venues'')) \<longrightarrow>
           reply (route_venue env query) = Sent 200 (JsonBody JNull)))"
  by (simp add: route_event_def route_venue_def event_url_def venue_url_def Let_def
                venue_reply_def)

theorem lookup_failures_witness:
  "route_event (answering 404 None) ''E1'' =
     \<lparr>reply = Sent 404 (ErrorBody ''event not found''),
      fetched = [event_url (answering 404 None) ''E1'']\<rparr>
   \<and> reply (route_event offline ''E1'') = Forwarded FetchRejected
   \<and> reply (route_event (answering 200 None) ''E1'') = Forwarded JsonRejected
   \<and> reply (route_venue (answering 503 None) (JObj [(''name'', JStr ''The Forum'')]))
       = Forwarded (UpstreamFailed ''TM venue failed: '' 503)
   \<and> reply (route_venue offline (JObj [(''name'', JStr ''The Forum'')]))
       = Forwarded FetchRejected
   \<and> reply (route_venue (answering 200 None) (JObj [(''name'', JStr ''The Forum'')]))
       = Forwarded JsonRejected
   \<and> reply (route_venue (answering 200 (Some (JObj []))) (JObj [(''name'', JStr ''The Forum'')]))
       = Sent 200 (JsonBody JNull)"
proof -
  let ?q = "JObj [(''name'', JStr ''The Forum'')]"
  have k: "\<not> ok 404" "\<not> ok 503" "ok 200"
    by (simp_all add: ok_def)
  have q: "own ?q ''name'' = JStr ''The Forum''" "''The Forum'' \<noteq> []"
    by simp_all
  have v: "\<not> truthy (oget0 (oget (oget (JObj []) ''_embedded'') ''venues''))"
    by (simp add: oget_def oget0_def)
  show ?thesis
    using lookup_failures[of "answering 404 None" "''E1''" 404 None ?q "''The Forum''" "JObj []"]
          lookup_failures[of offline "''E1''" 404 None ?q "''The Forum''" "JObj []"]
          lookup_failures[of "answering 200 None" "''E1''" 200 None ?q "''The Forum''" "JObj []"]
          lookup_failures[of "answering 503 None" "''E1''" 503 None ?q "''The Forum''" "JObj []"]
          lookup_failures[of "answering 200 (Some (JObj []))" "''E1''" 200 "Some (JObj [])" ?q
                             "''The Forum''" "JObj []"]
          k q v
    by simp
qed

text \<open>Where the claim as written fails: a 500 on the detail lookup is answered as "event not
  found", and a 404 on the venue lookup is a failure, not null.\<close>

theorem lookup_status_counterexample:
  "reply (route_event (answering 500 None) ''E1'') = Sent 500 (ErrorBody ''event not found'')
   \<and> reply (route_venue (answering 404 None) (JObj [(''name'', JStr ''The Forum'')]))
       = Forwarded (UpstreamFailed ''TM venue failed: '' 404)"
  by (simp add: route_event_def route_venue_def answering_def example_env_def ok_def Let_def)

section \<open>The events of a search payload\<close>

lemma search_events_absent:
  "\<not> truthy (oget (oget j ''_embedded'') ''events'') \<Longrightarrow> search_events env j = Inr []"
  by (simp add: search_events_def or_else_def array_map_def)

text \<open>
  Claim C3 asks for the empty list whenever \<^verbatim>\<open>_embedded.events\<close> is absent or is not an
  array. The default \<^verbatim>\<open>|| []\<close> covers what is absent or falsy only: on an object in place
  of the array the call of \<^verbatim>\<open>map\<close> throws, and the search is answered with a failure.
\<close>

theorem search_events_object: "search_events offline events_object = Inl TypeError"
  by (simp add: search_events_def events_object_def oget_def or_else_def array_map_def)

lemma route_search_events_object:
  "reply (route_search (answering 200 (Some events_object))
            (JObj [(''keyword'', JStr ''rock''), (''lat'', JStr ''34''), (''lng'', JStr ''-118'')]))
     = Forwarded TypeError"
  by (simp add: search_events_def events_object_def oget_def or_else_def array_map_def
        route_search_def answering_def example_env_def ok_def Let_def dflt_def search_url_def)

section \<open>Suggestions: blank keywords and failures\<close>

lemma trim_blank: "trim s = [] \<longleftrightarrow> list_all white_space s"
proof -
  have "dropWhile white_space s = [] \<longleftrightarrow> list_all white_space s"
    by (simp add: dropWhile_eq_Nil_conv list_all_iff)
  moreover have "dropWhile white_space (rev (dropWhile white_space s)) = []
                 \<longleftrightarrow> dropWhile white_space s = []"
  proof
    assume a: "dropWhile white_space (rev (dropWhile white_space s)) = []"
    show "dropWhile white_space s = []"
    proof (rule ccontr)
      assume ne: "dropWhile white_space s \<noteq> []"
      then have "\<not> white_space (hd (dropWhile white_space s))"
        by (rule hd_dropWhile)
      moreover have "hd (dropWhile white_space s) \<in> set (rev (dropWhile white_space s))"
        using ne by simp
      ultimately show False
        using a by (auto simp: dropWhile_eq_Nil_conv)
    qed
  next
    assume "dropWhile white_space s = []"
    then show "dropWhile white_space (rev (dropWhile white_space s)) = []"
      by (simp only: rev.simps dropWhile.simps)
  qed
  ultimately show ?thesis
    by (simp add: trim_def)
qed

text \<open>
  Claim C5, as the code has it. For every keyword that is missing, empty or made of white
  space only, the suggest route returns the empty list and makes no upstream call. For
  any other keyword text it makes one call; it returns the empty list when the payload
  holds no match, and it fails, handing the error on, when the upstream answers with a
  status outside 200 to 299, cannot be reached, or sends a body that is not JSON.
\<close>

theorem suggest_blank_or_no_match:
  "(blank (own query ''keyword'')
      \<longrightarrow> route_suggest env query = \<lparr>reply = Sent 200 (JsonBody (JArr [])), fetched = []\<rparr>)
   \<and> (own query ''keyword'' = JStr s \<and> \<not> blank (JStr s) \<longrightarrow>
        fetched (route_suggest env query) = [suggest_url env s]
      \<and> (fetch env (suggest_url env s) = Response st (Some j) \<and> ok st \<and> no_matches j
           \<longrightarrow> reply (route_suggest env query) = Sent 200 (JsonBody (JArr [])))
      \<and> (fetch env (suggest_url env s) = Response st parsed \<and> \<not> ok st
           \<longrightarrow> reply (route_suggest env query)
               = Forwarded (UpstreamFailed ''TM suggest failed: '' st))
      \<and> (fetch env (suggest_url env s) = NetworkError
           \<longrightarrow> reply (route_suggest env query) = Forwarded FetchRejected)
      \<and> (fetch env (suggest_url env s) = Response st None \<and> ok st
           \<longrightarrow> reply (route_suggest env query) = Forwarded JsonRejected))"
proof (intro conjI impI)
  assume "blank (own query ''keyword'')"
  then show "route_suggest env query = \<lparr>reply = Sent 200 (JsonBody (JArr [])), fetched = []\<rparr>"
    by (auto simp: route_suggest_def blank_def dflt_def trim_blank split: json.splits)
next
  assume a: "own query ''keyword'' = JStr s \<and> \<not> blank (JStr s)"
  then have nb: "trim s \<noteq> []"
    by (simp add: blank_def trim_blank)
  show "fetched (route_suggest env query) = [suggest_url env s]"
    using a nb
    by (simp add: route_suggest_def dflt_def suggest_url_def Let_def
             split: upstream.splits option.splits sum.splits)
  {
    assume "fetch env (suggest_url env s) = Response st (Some j) \<and> ok st \<and> no_matches j"
    then show "reply (route_suggest env query) = Sent 200 (JsonBody (JArr []))"
      using a nb
      by (auto simp: route_suggest_def dflt_def suggest_url_def Let_def no_matches_def
                     unique_def suggestions_def get_def array_map_def new_Set_def)
  }
  {
    assume "fetch env (suggest_url env s) = Response st parsed \<and> \<not> ok st"
    then show "reply (route_suggest env query)
               = Forwarded (UpstreamFailed ''TM suggest failed: '' st)"
      using a nb by (simp add: route_suggest_def dflt_def suggest_url_def Let_def)
  }
  {
    assume "fetch env (suggest_url env s) = NetworkError"
    then show "reply (route_suggest env query) = Forwarded FetchRejected"
      using a nb by (simp add: route_suggest_def dflt_def suggest_url_def Let_def)
  }
  {
    assume "fetch env (suggest_url env s) = Response st None \<and> ok st"
    then show "reply (route_suggest env query) = Forwarded JsonRejected"
      using a nb by (simp add: route_suggest_def dflt_def suggest_url_def Let_def)
  }
qed

theorem suggest_blank_or_no_match_witness:
  "route_suggest offline (JObj [(''keyword'', JStr ''   '')])
     = \<lparr>reply = Sent 200 (JsonBody (JArr [])), fetched = []\<rparr>
   \<and> route_suggest offline (JObj []) = \<lparr>reply = Sent 200 (JsonBody (JArr [])), fetched = []\<rparr>
   \<and> reply (route_suggest (answering 200 (Some (JObj []))) (JObj [(''keyword'', JStr ''zzz'')]))
       = Sent 200 (JsonBody (JArr []))
   \<and> reply (route_suggest (answering 500 None) (JObj [(''keyword'', JStr ''zzz'')]))
       = Forwarded (UpstreamFailed ''TM suggest failed: '' 500)
   \<and> reply (route_suggest offline (JObj [(''keyword'', JStr ''zzz'')])) = Forwarded FetchRejected"
proof -
  let ?q = "JObj [(''keyword'', JStr ''zzz'')]"
  have k: "\<not> ok 500" "ok 200"
    by (simp_all add: ok_def)
  have b: "blank (own (JObj [(''keyword'', JStr ''   '')]) ''keyword'')"
          "blank (own (JObj []) ''keyword'')"
    by (simp_all add: blank_def white_space_def)
  have nb: "own ?q ''keyword'' = JStr ''zzz''" "\<not> blank (JStr ''zzz'')"
    by (simp_all add: blank_def white_space_def)
  have nm: "no_matches (JObj [])"
    by (simp add: no_matches_def)
  show ?thesis
    using suggest_blank_or_no_match[of "JObj [(''keyword'', JStr ''   '')]" offline "''zzz''"
                                       200 "JObj []" None]
          suggest_blank_or_no_match[of "JObj []" offline "''zzz''" 200 "JObj []" None]
          suggest_blank_or_no_match[of ?q "answering 200 (Some (JObj []))" "''zzz''" 200
                                       "JObj []" "Some (JObj [])"]
          suggest_blank_or_no_match[of ?q "answering 500 None" "''zzz''" 500 "JObj []" None]
          suggest_blank_or_no_match[of ?q offline "''zzz''" 200 "JObj []" None]
          k b nb nm
    by simp
qed

text \<open>Where the claim as written fails: the suggest route does fail, when the upstream
  does.\<close>

theorem suggest_upstream_counterexample:
  "reply (route_suggest (answering 500 None) (JObj [(''keyword'', JStr ''rock'')]))
     = Forwarded (UpstreamFailed ''TM suggest failed: '' 500)"
  by (simp add: route_suggest_def answering_def example_env_def ok_def Let_def dflt_def
                trim_def white_space_def)

text \<open>The suggest route has no validation error of its own.\<close>

lemma route_suggest_no_validation_error: "\<not> validation_error (route_suggest env query)"
  by (simp add: route_suggest_def validation_error_def Let_def
           split: json.splits upstream.splits option.splits sum.splits)

section \<open>Suggestions: names, order and duplicates\<close>

lemma keep_first_value_set:
  "set a = set b \<Longrightarrow> keep_first_value a xs = keep_first_value b xs"
proof (induction xs arbitrary: a b)
  case Nil
  then show ?case by simp
next
  case (Cons x xs)
  have "keep_first_value (x # a) xs = keep_first_value (x # b) xs"
    using Cons.prems by (intro Cons.IH) simp
  moreover have "keep_first_value a xs = keep_first_value b xs"
    using Cons.prems by (rule Cons.IH)
  ultimately show ?case
    using Cons.prems by simp
qed

lemma set_add_value:
  "set_add acc x = (if primitive x \<and> x \<in> set acc then acc else acc @ [x])"
proof -
  have "same_value_zero u x \<longleftrightarrow> primitive x \<and> u = x" for u
    by (cases u; cases x) (auto simp: primitive_def)
  then have "list_ex (\<lambda>u. same_value_zero u x) acc \<longleftrightarrow> primitive x \<and> x \<in> set acc"
    by (auto simp: list_ex_iff)
  then show ?thesis
    by (simp add: set_add_def)
qed

lemma foldl_set_add_values:
  "foldl set_add acc xs = acc @ keep_first_value acc xs"
proof (induction xs arbitrary: acc)
  case Nil
  then show ?case by simp
next
  case (Cons x xs)
  show ?case
  proof (cases "primitive x \<and> x \<in> set acc")
    case True
    then have "set_add acc x = acc"
      by (simp add: set_add_value)
    then have "foldl set_add acc (x # xs) = foldl set_add acc xs"
      by simp
    with True show ?thesis
      using Cons.IH[of acc] by simp
  next
    case False
    then have "set_add acc x = acc @ [x]"
      by (simp add: set_add_value)
    then have "foldl set_add acc (x # xs) = foldl set_add (acc @ [x]) xs"
      by simp
    moreover have "keep_first_value (acc @ [x]) xs = keep_first_value (x # acc) xs"
      by (rule keep_first_value_set) simp
    moreover have "keep_first_value acc (x # xs) = x # keep_first_value (x # acc) xs"
      using False by auto
    ultimately show ?thesis
      using Cons.IH[of "acc @ [x]"] by (simp del: keep_first_value.simps)
  qed
qed

lemma new_Set_values: "new_Set xs = keep_first_value [] xs"
  using foldl_set_add_values[of "[]" xs] by (simp add: new_Set_def)

lemma keep_first_value_strings:
  "keep_first_value (map JStr seen) (map JStr ss) = map JStr (keep_first seen ss)"
proof (induction ss arbitrary: seen)
  case Nil
  then show ?case by simp
next
  case (Cons s ss)
  have "JStr s \<in> set (map JStr seen) \<longleftrightarrow> s \<in> set seen"
    by auto
  then show ?case
    using Cons.IH[of seen] Cons.IH[of "s # seen"] by (simp add: primitive_def)
qed

lemma keep_first_distinct:
  "distinct (keep_first seen xs) \<and> set (keep_first seen xs) = set xs - set seen"
  by (induction xs arbitrary: seen) auto

lemma array_map_names:
  "entry_array v \<Longrightarrow> array_map (\<lambda>a. get a ''name'') (dflt v (JArr [])) = Inr (entry_names v)"
proof (cases v)
  case (JArr xs)
  assume "entry_array v"
  then have "list_all (\<lambda>x. \<not> nullish x) xs"
    using JArr by (simp add: entry_array_def)
  then have "sequence (map (\<lambda>a. get a ''name'') xs) = Inr (map (\<lambda>x. own x ''name'') xs)"
    by (induction xs) (simp_all add: get_def)
  then show ?thesis
    using JArr by (simp add: array_map_def dflt_def entry_names_def)
qed (simp_all add: entry_array_def array_map_def dflt_def entry_names_def)

lemma suggestions_names:
  assumes "suggest_payload j"
  shows "suggestions j = Inr (all_names j)"
proof -
  have "get j ''_embedded'' = Inr (own j ''_embedded'')"
    using assms by (simp add: suggest_payload_def get_def)
  then show ?thesis
    using assms
    by (simp add: suggest_payload_def suggestions_def Let_def array_map_names all_names_def)
qed

text \<open>
  Claim C6, as the code has it. For every suggest payload whose lists are absent or arrays
  without a null entry, the suggestions are the names of the attractions, then of the
  venues, then of the events, each list in its own order, with duplicates removed keeping
  the first occurrence, cut to at most 10 entries; a payload without \<^verbatim>\<open>_embedded\<close> gives
  the empty list. Every element returned is the name of an upstream entry as the
  upstream has it, and a name that is a string, a number, a truth value, null or absent
  counts as a duplicate of an equal one before it: when the names are strings the result
  is the list of strings above; an entry without a name contributes undefined, once.
\<close>

theorem unique_suggestions:
  "(\<not> nullish j \<and> \<not> truthy (own j ''_embedded'') \<longrightarrow> unique j = Inr [])
   \<and> (suggest_payload j \<longrightarrow>
        unique j = Inr (take 10 (keep_first_value [] (all_names j)))
      \<and> (all_names j = map JStr ss \<longrightarrow> unique j = Inr (map JStr (take 10 (keep_first [] ss)))))"
proof (intro conjI impI)
  assume "\<not> nullish j \<and> \<not> truthy (own j ''_embedded'')"
  then show "unique j = Inr []"
    by (simp add: unique_def suggestions_def get_def new_Set_def)
next
  assume p: "suggest_payload j"
  then show u: "unique j = Inr (take 10 (keep_first_value [] (all_names j)))"
    by (simp add: unique_def suggestions_names new_Set_values)
  {
    assume "all_names j = map JStr ss"
    with u show "unique j = Inr (map JStr (take 10 (keep_first [] ss)))"
      using keep_first_value_strings[of "[]" ss] by (simp add: take_map)
  }
qed

text \<open>The example of the specification, and a payload with an entry that has no name.\<close>

theorem unique_suggestions_witness:
  "suggest_payload suggest_example
   \<and> all_names suggest_example = map JStr [''A'', ''B'', ''B'', ''C'', ''A'']
   \<and> unique suggest_example = Inr [JStr ''A'', JStr ''B'', JStr ''C'']
   \<and> suggest_payload suggest_mixed
   \<and> all_names suggest_mixed = [JStr ''A'', JStr ''B'', JUndefined, JStr ''A'']
   \<and> unique suggest_mixed = Inr [JStr ''A'', JStr ''B'', JUndefined]
   \<and> unique (JObj []) = Inr []"
proof -
  have p: "suggest_payload suggest_example"
    by (simp add: suggest_payload_def suggest_example_def entry_array_def named_def)
  have n: "all_names suggest_example = map JStr [''A'', ''B'', ''B'', ''C'', ''A'']"
    by (simp add: all_names_def suggest_example_def entry_names_def named_def)
  have k: "take 10 (keep_first [] [''A'', ''B'', ''B'', ''C'', ''A'']) = [''A'', ''B'', ''C'']"
    by simp
  have "unique suggest_example
          = Inr (map JStr (take 10 (keep_first [] [''A'', ''B'', ''B'', ''C'', ''A''])))"
    using unique_suggestions[of suggest_example "[''A'', ''B'', ''B'', ''C'', ''A'']"] p n
    by blast
  then have u: "unique suggest_example = Inr [JStr ''A'', JStr ''B'', JStr ''C'']"
    by (simp only: k) simp
  have pm: "suggest_payload suggest_mixed"
    by (simp add: suggest_payload_def suggest_mixed_def entry_array_def named_def)
  have nm: "all_names suggest_mixed = [JStr ''A'', JStr ''B'', JUndefined, JStr ''A'']"
    by (simp add: all_names_def suggest_mixed_def entry_names_def named_def)
  have km: "take 10 (keep_first_value [] [JStr ''A'', JStr ''B'', JUndefined, JStr ''A''])
              = [JStr ''A'', JStr ''B'', JUndefined]"
    by (simp add: primitive_def)
  have "unique suggest_mixed = Inr (take 10 (keep_first_value [] (all_names suggest_mixed)))"
    using unique_suggestions[of suggest_mixed "[]"] pm by blast
  then have um: "unique suggest_mixed = Inr [JStr ''A'', JStr ''B'', JUndefined]"
    by (simp only: nm km)
  have e: "unique (JObj []) = Inr []"
    using unique_suggestions[of "JObj []" "[]"] by simp
  from p n u pm nm um e show ?thesis by blast
qed

text \<open>Where the claim as written fails: an attraction without a name gives an element that
  is no string.\<close>

theorem unique_nameless_counterexample:
  "unique (JObj [(''_embedded'', JObj [(''attractions'', JArr [JObj []])])]) = Inr [JUndefined]"
  by (simp add: unique_def suggestions_def get_def Let_def dflt_def array_map_def
                new_Set_def set_add_def)

section \<open>The venue lookup\<close>

lemma sequence_primitives:
  "list_all primitive xs \<Longrightarrow>
   \<exists>ss. sequence (map (\<lambda>x. if nullish x then Inr [] else ToString ns x) xs) = Inr ss"
proof (induction xs)
  case Nil
  then show ?case by simp
next
  case (Cons x xs)
  then obtain ss where "sequence (map (\<lambda>x. if nullish x then Inr [] else ToString ns x) xs) = Inr ss"
    by auto
  moreover obtain s where "ToString ns x = Inr s"
    using Cons.prems ToString_primitive[of x ns] by auto
  ultimately show ?case by simp
qed

lemma array_join_primitives:
  "list_all primitive xs \<Longrightarrow> \<exists>s. array_join ns sep xs = Inr s"
  using sequence_primitives[of xs ns] by (auto simp: array_join_def)

lemma list_all_filter: "list_all P xs \<Longrightarrow> list_all P (filter Q xs)"
  by (induction xs) simp_all

lemma fullAddress_string:
  assumes "address_like v"
  shows "\<exists>s. fullAddress env v = Inr (JStr s)"
proof (cases "truthy v")
  case False
  then show ?thesis by (simp add: fullAddress_def)
next
  case True
  let ?cs = "filter truthy [oget (oget v ''city'') ''name'', oget (oget v ''state'') ''stateCode'']"
  have "list_all primitive ?cs"
    using assms by (intro list_all_filter) (simp add: address_like_def)
  then obtain c where c: "array_join (NumberToString env) '', '' ?cs = Inr c"
    using array_join_primitives by blast
  let ?ps = "filter truthy [oget v ''name'', oget (oget v ''address'') ''line1'', JStr c,
                             oget v ''postalCode'']"
  have "list_all primitive ?ps"
    using assms by (intro list_all_filter) (simp add: address_like_def primitive_def)
  then obtain s where s: "array_join (NumberToString env) '', '' ?ps = Inr s"
    using array_join_primitives by blast
  show ?thesis
    using True c s by (simp add: fullAddress_def)
qed

lemma Number_primitive: "primitive v \<Longrightarrow> \<exists>d. Number env v = Inr d"
  by (cases v) (simp_all add: primitive_def Number_def)

lemma coordinate_value:
  assumes "primitive (coord v k)"
  shows "\<exists>c. coordinate env v k = Inr c \<and> (c = None \<longleftrightarrow> \<not> truthy (coord v k))"
proof (cases "truthy (coord v k)")
  case False
  then show ?thesis by (simp add: coordinate_def coord_def)
next
  case True
  then have nn: "\<not> nullish v" "\<not> nullish (own v ''location'')"
    by (auto simp: coord_def oget_def split: if_splits)
  then have c: "coord v k = own (own v ''location'') k"
    by (simp add: coord_def oget_def)
  obtain d where "Number env (own (own v ''location'') k) = Inr d"
    using assms c Number_primitive[of "coord v k" env] by auto
  then show ?thesis
    using True nn c by (simp add: coordinate_def coord_def get_def oget_def)
qed

lemma maps_url_value:
  assumes "primitive (coord v ''latitude'')" and "primitive (coord v ''longitude'')"
  shows "\<exists>m. maps_url env v = Inr m
            \<and> (m = None \<longleftrightarrow> \<not> (truthy (coord v ''latitude'') \<and> truthy (coord v ''longitude'')))"
proof (cases "truthy (coord v ''latitude'') \<and> truthy (coord v ''longitude'')")
  case False
  then show ?thesis by (auto simp: maps_url_def coord_def)
next
  case True
  then have nn: "\<not> nullish v" "\<not> nullish (own v ''location'')"
    by (auto simp: coord_def oget_def split: if_splits)
  then have c: "coord v ''latitude'' = own (own v ''location'') ''latitude''"
               "coord v ''longitude'' = own (own v ''location'') ''longitude''"
    by (simp_all add: coord_def oget_def)
  obtain a where a: "ToString (NumberToString env) (own (own v ''location'') ''latitude'') = Inr a"
    using assms(1) c ToString_primitive[of "coord v ''latitude''"] by auto
  obtain b where b: "ToString (NumberToString env) (own (own v ''location'') ''longitude'') = Inr b"
    using assms(2) c ToString_primitive[of "coord v ''longitude''"] by auto
  show ?thesis
    using True nn c a b by (simp add: maps_url_def coord_def get_def oget_def)
qed

text \<open>
  Claim C7, as the code has it. The venue lookup gives null when no venue is embedded.
  Otherwise \<^verbatim>\<open>location.lat\<close> and \<^verbatim>\<open>location.lng\<close> are numbers or null, each null exactly
  when the upstream coordinate is absent or falsy (null, the empty string, the number 0,
  false), and \<^verbatim>\<open>googleMapsUrl\<close> is null exactly when one of the two coordinates is absent
  or falsy.
\<close>

theorem venue_coordinates:
  "(\<not> truthy (venue_of j) \<longrightarrow> venue_reply env j = Inr (JsonBody JNull))
   \<and> (truthy (venue_of j) \<and> venue_like (venue_of j) \<longrightarrow>
        (\<exists>out. venue_reply env j = Inr (VenueBody out)
           \<and> (lat (location out) = None \<longleftrightarrow> \<not> truthy (coord (venue_of j) ''latitude''))
           \<and> (lng (location out) = None \<longleftrightarrow> \<not> truthy (coord (venue_of j) ''longitude''))
           \<and> (googleMapsUrl out = None \<longleftrightarrow>
                \<not> (truthy (coord (venue_of j) ''latitude'')
                   \<and> truthy (coord (venue_of j) ''longitude'')))))"
proof (intro conjI impI)
  assume "\<not> truthy (venue_of j)"
  then show "venue_reply env j = Inr (JsonBody JNull)"
    by (simp add: venue_reply_def venue_of_def)
next
  let ?v = "venue_of j"
  assume a: "truthy ?v \<and> venue_like ?v"
  then have nn: "\<not> nullish ?v"
    by (cases ?v) simp_all
  obtain s where s: "fullAddress env ?v = Inr (JStr s)"
    using a fullAddress_string[of ?v env] by (auto simp: venue_like_def)
  obtain la where la: "coordinate env ?v ''latitude'' = Inr la"
      "la = None \<longleftrightarrow> \<not> truthy (coord ?v ''latitude'')"
    using a coordinate_value[of ?v "''latitude''" env] by (auto simp: venue_like_def)
  obtain lo where lo: "coordinate env ?v ''longitude'' = Inr lo"
      "lo = None \<longleftrightarrow> \<not> truthy (coord ?v ''longitude'')"
    using a coordinate_value[of ?v "''longitude''" env] by (auto simp: venue_like_def)
  obtain m where m: "maps_url env ?v = Inr m"
      "m = None \<longleftrightarrow> \<not> (truthy (coord ?v ''latitude'') \<and> truthy (coord ?v ''longitude''))"
    using a maps_url_value[of ?v env] by (auto simp: venue_like_def)
  have "venue_out env ?v =
          Inr \<lparr>name = coalesce (own ?v ''name'') (JStr ''''), address = JStr s,
               location = \<lparr>lat = la, lng = lo\<rparr>, googleMapsUrl = m,
               tmUrl = coalesce (oget ?v ''url'') JNull\<rparr>"
    using nn s la(1) lo(1) m(1) by (simp add: venue_out_def get_def)
  then have "venue_reply env j =
          Inr (VenueBody \<lparr>name = coalesce (own ?v ''name'') (JStr ''''), address = JStr s,
               location = \<lparr>lat = la, lng = lo\<rparr>, googleMapsUrl = m,
               tmUrl = coalesce (oget ?v ''url'') JNull\<rparr>)"
    using a by (simp add: venue_reply_def venue_of_def[symmetric] Let_def)
  with la(2) lo(2) m(2)
  show "\<exists>out. venue_reply env j = Inr (VenueBody out)
           \<and> (lat (location out) = None \<longleftrightarrow> \<not> truthy (coord (venue_of j) ''latitude''))
           \<and> (lng (location out) = None \<longleftrightarrow> \<not> truthy (coord (venue_of j) ''longitude''))
           \<and> (googleMapsUrl out = None \<longleftrightarrow>
                \<not> (truthy (coord (venue_of j) ''latitude'')
                   \<and> truthy (coord (venue_of j) ''longitude'')))"
    by simp
qed

text \<open>A payload without a venue, and a venue with a latitude and no longitude.\<close>

theorem venue_coordinates_witness:
  "venue_reply offline (JObj []) = Inr (JsonBody JNull)
   \<and> truthy (venue_of (venue_payload venue_north))
   \<and> venue_like (venue_of (venue_payload venue_north))
   \<and> (\<exists>out. venue_reply offline (venue_payload venue_north) = Inr (VenueBody out)
          \<and> lat (location out) \<noteq> None \<and> lng (location out) = None \<and> googleMapsUrl out = None)"
proof -
  have e: "\<not> truthy (venue_of (JObj []))"
    by (simp add: venue_of_def oget_def oget0_def)
  have v: "venue_of (venue_payload venue_north) = venue_north"
    by (simp add: venue_of_def venue_payload_def oget_def oget0_def)
  have t: "truthy venue_north" "venue_like venue_north"
    by (simp_all add: venue_north_def venue_like_def address_like_def coord_def oget_def
                      primitive_def)
  have c: "truthy (coord venue_north ''latitude'')" "\<not> truthy (coord venue_north ''longitude'')"
    by (simp_all add: venue_north_def coord_def oget_def)
  show ?thesis
    using venue_coordinates[of "JObj []" offline]
          venue_coordinates[of "venue_payload venue_north" offline] e v t c
    by auto
qed

text \<open>Where the claim as written fails: both coordinates are present, as the number 0, and
  the three fields are null.\<close>

theorem venue_zero_counterexample:
  "venue_reply offline (venue_payload venue_null_island) =
     Inr (VenueBody \<lparr>name = JStr ''Null Island'', address = JStr ''Null Island'',
                     location = \<lparr>lat = None, lng = None\<rparr>, googleMapsUrl = None,
                     tmUrl = JNull\<rparr>)
   \<and> coord venue_null_island ''latitude'' = JNum 0
   \<and> coord venue_null_island ''longitude'' = JNum 0"
  by (simp add: venue_reply_def venue_payload_def venue_null_island_def venue_out_def
        oget_def oget0_def get_def Let_def coordinate_def maps_url_def fullAddress_def
        array_join_def coalesce_def coord_def)

text \<open>Null is the reply only when no venue is embedded.\<close>

lemma venue_reply_null_only:
  "truthy (venue_of j) \<Longrightarrow> venue_reply env j \<noteq> Inr (JsonBody JNull)"
  by (cases "venue_out env (venue_of j)") (simp_all add: venue_reply_def venue_of_def Let_def)

section \<open>Search rows and detail cards\<close>

lemma truthy_not_nullish: "truthy v \<Longrightarrow> \<not> nullish v"
  by (cases v) simp_all

lemma set_insert_sorted:
  "insert_sorted cmp x ys = Inr zs \<Longrightarrow> set zs = insert x (set ys)"
proof (induction ys arbitrary: zs)
  case Nil
  then show ?case by auto
next
  case (Cons y ys)
  from Cons.prems obtain v where v: "cmp x y = Inr v"
    by (cases "cmp x y") simp_all
  show ?case
  proof (cases "case v of None \<Rightarrow> True | Some d \<Rightarrow> d \<le> 0")
    case True
    with Cons.prems v have "zs = x # y # ys"
      by simp
    then show ?thesis by auto
  next
    case False
    with Cons.prems v obtain ws where ws: "insert_sorted cmp x ys = Inr ws" "zs = y # ws"
      by (cases "insert_sorted cmp x ys") simp_all
    from ws(1) have "set ws = insert x (set ys)"
      by (rule Cons.IH)
    with ws(2) show ?thesis by auto
  qed
qed

lemma set_array_sort: "array_sort cmp xs = Inr zs \<Longrightarrow> set zs = set xs"
proof (induction xs arbitrary: zs)
  case Nil
  then show ?case by simp
next
  case (Cons x xs)
  then obtain ys where ys: "array_sort cmp xs = Inr ys" "insert_sorted cmp x ys = Inr zs"
    by (cases "array_sort cmp xs") simp_all
  from ys(1) have "set ys = set xs"
    by (rule Cons.IH)
  with set_insert_sorted[OF ys(2)] show ?case by simp
qed

lemma pickImage_no_url:
  assumes "pickImage env v = Inr r" and "no_image_url v"
  shows "r = JStr ''''"
proof (cases "no_array v")
  case True
  then have "pickImage env v = Inr (JStr '''')"
    by (auto simp: no_array_def pickImage_def split: json.splits list.splits)
  with assms(1) show ?thesis by simp
next
  case False
  then obtain first rest where v: "v = JArr (first # rest)"
    by (auto simp: no_array_def split: json.splits list.splits)
  from assms(1) v obtain zs where zs: "array_sort (compare_images env) (first # rest) = Inr zs"
    by (cases "array_sort (compare_images env) (first # rest)") (simp_all add: pickImage_def)
  then have s: "set zs = set (first # rest)"
    by (rule set_array_sort)
  then obtain z zs' where z: "zs = z # zs'"
    by (cases zs) auto
  have all: "\<forall>x\<in>set (first # rest). \<not> truthy (oget x ''url'')"
    using assms(2) v by (simp add: no_image_url_def elements_def list_all_iff)
  have "z \<in> set (first # rest)"
    using s z by auto
  then have nz: "\<not> truthy (oget z ''url'')"
    using all by blast
  have nf: "\<not> truthy (oget first ''url'')"
    using all by simp
  have own0: "own0 (JArr zs) = z"
    by (simp add: z)
  have p: "pickImage env v = andThen (get first ''url'') (\<lambda>u0. Inr (or_else u0 (JStr '''')))"
    unfolding v pickImage_def using zs own0 nz by (simp add: Let_def)
  show ?thesis
  proof (cases "nullish first")
    case True
    then have "get first ''url'' = Inl TypeError"
      by (simp add: get_def)
    with p assms(1) show ?thesis by simp
  next
    case False
    then have "get first ''url'' = Inr (oget first ''url'')"
      by (simp add: get_def oget_def)
    with p assms(1) nf show ?thesis
      by (simp add: or_else_def)
  qed
qed

lemma pickGenre_no_genre:
  assumes "no_genre cs"
  shows "pickGenre env cs = Inr (JStr '''')"
proof (cases "no_array cs")
  case True
  then show ?thesis
    by (auto simp: no_array_def pickGenre_def split: json.splits list.splits)
next
  case False
  then obtain c rest where cs: "cs = JArr (c # rest)"
    by (auto simp: no_array_def split: json.splits list.splits)
  with assms have "filter truthy [oget (oget c ''segment'') ''name'',
                                  oget (oget c ''genre'') ''name'',
                                  oget (oget c ''subGenre'') ''name''] = []"
    by (simp add: no_genre_def)
  then show ?thesis
    unfolding cs pickGenre_def by (simp add: array_join_def)
qed

lemma formatPriceRange_no_price:
  assumes "no_price v"
  shows "formatPriceRange env v = Inr (JStr '''')"
proof (cases "no_array v")
  case True
  then show ?thesis
    by (auto simp: no_array_def formatPriceRange_def split: json.splits list.splits)
next
  case False
  then obtain r rest where v: "v = JArr (r # rest)"
    by (auto simp: no_array_def split: json.splits list.splits)
  with assms have "price_bound env r ''min'' = Inr None" "price_bound env r ''max'' = Inr None"
    by (simp_all add: no_price_def price_bound_def)
  then show ?thesis
    unfolding v formatPriceRange_def by (simp add: truthy_str_def)
qed

lemma fullAddress_no_address:
  assumes "no_address v"
  shows "fullAddress env v = Inr (JStr '''')"
proof (cases "truthy v")
  case False
  then show ?thesis
    by (simp add: fullAddress_def)
next
  case True
  with assms have parts: "\<not> truthy (oget v ''name'')"
      "\<not> truthy (oget (oget v ''address'') ''line1'')"
      "\<not> truthy (oget (oget v ''city'') ''name'')"
      "\<not> truthy (oget (oget v ''state'') ''stateCode'')"
      "\<not> truthy (oget v ''postalCode'')"
    by (simp_all add: no_address_def)
  have "array_join (NumberToString env) '', '' [] = Inr []"
    by (simp add: array_join_def)
  then show ?thesis
    using True parts by (simp add: fullAddress_def)
qed

lemma pickImage_result: "pickImage env v = Inr r \<Longrightarrow> \<not> nullish r"
  by (auto simp: pickImage_def Let_def or_else_def andThen_def get_def truthy_not_nullish
           split: json.splits list.splits sum.splits if_splits)

lemma pickImage_images_like:
  assumes "images_like v"
  shows "\<exists>r. pickImage env v = Inr r \<and> \<not> nullish r \<and> (no_image_url v \<longrightarrow> r = JStr '''')"
proof -
  have "\<exists>r. pickImage env v = Inr r"
  proof (cases v)
    case (JArr xs)
    then show ?thesis
      using assms pickImage_image_like[of xs env] by (simp add: images_like_def)
  qed (simp_all add: pickImage_def)
  then obtain r where r: "pickImage env v = Inr r"
    by blast
  moreover have "no_image_url v \<longrightarrow> r = JStr ''''"
    using pickImage_no_url[OF r] by blast
  ultimately show ?thesis
    using pickImage_result[OF r] by blast
qed

lemma pickGenre_genre_like:
  assumes "genre_like cs"
  shows "\<exists>g. pickGenre env cs = Inr (JStr g) \<and> (no_array cs \<longrightarrow> g = '''')"
proof (cases "no_array cs")
  case True
  then show ?thesis
    by (auto simp: no_array_def pickGenre_def split: json.splits list.splits)
next
  case False
  then obtain c rest where cs: "cs = JArr (c # rest)"
    by (auto simp: no_array_def split: json.splits list.splits)
  let ?parts = "filter truthy [oget (oget c ''segment'') ''name'', oget (oget c ''genre'') ''name'',
                               oget (oget c ''subGenre'') ''name'']"
  have "list_all primitive ?parts"
    using assms cs by (intro list_all_filter) (simp add: genre_like_def)
  then obtain s where "array_join (NumberToString env) '' | '' ?parts = Inr s"
    using array_join_primitives by blast
  then show ?thesis
    using cs False by (simp add: pickGenre_def)
qed

lemma pickGenre_value:
  assumes "genre_like cs"
  shows "\<exists>g. pickGenre env cs = Inr (JStr g) \<and> (no_genre cs \<longrightarrow> g = '''')"
proof -
  obtain g where g: "pickGenre env cs = Inr (JStr g)"
    using pickGenre_genre_like[OF assms, of env] by blast
  then have "no_genre cs \<longrightarrow> g = ''''"
    using pickGenre_no_genre[of cs env] by auto
  with g show ?thesis by blast
qed

lemma normEventRow_explicit:
  assumes "row_like e"
  shows "\<exists>im g. \<not> nullish im \<and> (no_image_url (oget e ''images'') \<longrightarrow> im = JStr '''')
           \<and> (no_genre (oget e ''classifications'') \<longrightarrow> g = '''')
           \<and> normEventRow env e =
               Inr (JObj
                 [(''id'', own e ''id''),
                  (''name'', coalesce (own e ''name'') (JStr '''')),
                  (''dateLocal'',
                     coalesce (oget (oget (oget e ''dates'') ''start'') ''localDate'') (JStr '''')),
                  (''imageUrl'', im),
                  (''genre'', JStr g),
                  (''venue'', coalesce (oget (venue_of e) ''name'') (JStr ''''))])"
proof -
  obtain im where im: "pickImage env (oget e ''images'') = Inr im" "\<not> nullish im"
      "no_image_url (oget e ''images'') \<longrightarrow> im = JStr ''''"
    using assms pickImage_images_like[of "oget e ''images''" env] by (auto simp: row_like_def)
  obtain g where g: "pickGenre env (oget e ''classifications'') = Inr (JStr g)"
      "no_genre (oget e ''classifications'') \<longrightarrow> g = ''''"
    using assms pickGenre_value[of "oget e ''classifications''" env]
    by (auto simp: row_like_def)
  have "\<not> nullish e"
    using assms by (simp add: row_like_def)
  then have "normEventRow env e =
               Inr (JObj
                 [(''id'', own e ''id''),
                  (''name'', coalesce (own e ''name'') (JStr '''')),
                  (''dateLocal'',
                     coalesce (oget (oget (oget e ''dates'') ''start'') ''localDate'') (JStr '''')),
                  (''imageUrl'', im),
                  (''genre'', JStr g),
                  (''venue'', coalesce (oget (venue_of e) ''name'') (JStr ''''))])"
    using im(1) g(1) by (simp add: normEventRow_def get_def venue_of_def)
  with im(2,3) g(2) show ?thesis by blast
qed

lemma coalesce_string [simp]: "\<not> nullish (coalesce v (JStr s))"
  by (simp add: coalesce_def)

lemma coalesce_absent: "nullish v \<Longrightarrow> coalesce v d = d"
  by (simp add: coalesce_def)

lemma artists_value:
  assumes "artists_like v"
  shows "array_map artist (or_else v (JArr [])) = Inr (map artist_of (elements v))"
proof (cases v)
  case (JArr xs)
  then have "list_all (\<lambda>a. \<not> nullish a) xs"
    using assms by (simp add: artists_like_def)
  then have "sequence (map artist xs) = Inr (map artist_of xs)"
    by (induction xs) (simp_all add: artist_def artist_of_def get_def)
  then show ?thesis
    using JArr by (simp add: array_map_def or_else_def elements_def)
qed (use assms in \<open>simp_all add: artists_like_def array_map_def or_else_def elements_def\<close>)

lemma ticketStatusColor_status_like:
  assumes "status_like c"
  shows "\<exists>col. ticketStatusColor c = Inr (JStr col) \<and> (\<not> truthy c \<longrightarrow> col = ''gray'')"
proof (cases "truthy c")
  case False
  then have "or_else c (JStr '''') = JStr ''''"
    by (simp add: or_else_def)
  then have "ticketStatusColor c = Inr (JStr ''gray'')"
    by (simp add: ticketStatusColor_def toLowerCase_def str_includes_def)
  then show ?thesis by simp
next
  case True
  then obtain s where "c = JStr s"
    using assms by (cases c) (simp_all add: status_like_def)
  then show ?thesis
    using True by (simp add: ticketStatusColor_def or_else_def Let_def)
qed

lemma price_bound_primitive:
  assumes "primitive (oget r k)"
  shows "\<exists>b. price_bound env r k = Inr b"
proof (cases "nullish (oget r k)")
  case True
  then show ?thesis by (simp add: price_bound_def)
next
  case False
  then have nn: "\<not> nullish r"
    by (auto simp: oget_def split: if_splits)
  then have "oget r k = own r k"
    by (simp add: oget_def)
  then obtain d where "Number env (own r k) = Inr d"
    using assms Number_primitive[of "own r k" env] by auto
  then show ?thesis
    using False nn by (simp add: price_bound_def get_def)
qed

lemma formatPriceRange_prices_like:
  assumes "prices_like v"
  shows "\<exists>p. formatPriceRange env v = Inr (JStr p) \<and> (no_array v \<longrightarrow> p = '''')"
proof (cases "no_array v")
  case True
  then show ?thesis
    by (auto simp: no_array_def formatPriceRange_def split: json.splits list.splits)
next
  case False
  then obtain r rest where v: "v = JArr (r # rest)"
    by (auto simp: no_array_def split: json.splits list.splits)
  obtain lo where lo: "price_bound env r ''min'' = Inr lo"
    using assms v price_bound_primitive[of r "''min''" env] by (auto simp: prices_like_def)
  obtain hi where hi: "price_bound env r ''max'' = Inr hi"
    using assms v price_bound_primitive[of r "''max''" env] by (auto simp: prices_like_def)
  show ?thesis
    using v False lo hi by (simp add: formatPriceRange_def)
qed

lemma formatPriceRange_value:
  assumes "prices_like v"
  shows "\<exists>p. formatPriceRange env v = Inr (JStr p) \<and> (no_price v \<longrightarrow> p = '''')"
proof -
  obtain p where p: "formatPriceRange env v = Inr (JStr p)"
    using formatPriceRange_prices_like[OF assms, of env] by blast
  then have "no_price v \<longrightarrow> p = ''''"
    using formatPriceRange_no_price[of v env] by auto
  with p show ?thesis by blast
qed

lemma details_explicit:
  assumes "detail_like e"
  shows "\<exists>addr col price g.
           (no_address (venue_of e) \<longrightarrow> addr = '''')
         \<and> (\<not> truthy (oget (oget (oget e ''dates'') ''status'') ''code'') \<longrightarrow> col = ''gray'')
         \<and> (no_price (oget e ''priceRanges'') \<longrightarrow> price = '''')
         \<and> (no_genre (oget e ''classifications'') \<longrightarrow> g = '''')
         \<and> details env e =
             Inr (JObj
               [(''id'', own e ''id''),
                (''name'', coalesce (own e ''name'') (JStr '''')),
                (''dateLocal'',
                   coalesce (oget (oget (oget e ''dates'') ''start'') ''localDate'') (JStr '''')),
                (''timeLocal'',
                   coalesce (oget (oget (oget e ''dates'') ''start'') ''localTime'') (JStr '''')),
                (''artists'',
                   JArr (take 5 (map artist_of
                                   (elements (oget (oget e ''_embedded'') ''attractions''))))),
                (''venue'', coalesce (oget (venue_of e) ''name'') (JStr '''')),
                (''address'', JStr addr),
                (''ticketStatus'',
                   coalesce (oget (oget (oget e ''dates'') ''status'') ''code'') (JStr '''')),
                (''ticketStatusColor'', JStr col),
                (''buyTicketAt'', coalesce (oget e ''url'') (JStr '''')),
                (''seatmap'', coalesce (oget (oget e ''seatmap'') ''staticUrl'') (JStr '''')),
                (''priceRange'', JStr price),
                (''genre'', JStr g)])"
proof -
  let ?code = "oget (oget (oget e ''dates'') ''status'') ''code''"
  have nn: "\<not> nullish e"
    using assms by (simp add: detail_like_def)
  have artists: "array_map artist (or_else (oget (oget e ''_embedded'') ''attractions'') (JArr []))
                   = Inr (map artist_of (elements (oget (oget e ''_embedded'') ''attractions'')))"
    using assms by (intro artists_value) (simp add: detail_like_def)
  obtain addr where addr: "fullAddress env (venue_of e) = Inr (JStr addr)"
    using assms fullAddress_string[of "venue_of e" env] by (auto simp: detail_like_def)
  have addr0: "no_address (venue_of e) \<longrightarrow> addr = ''''"
    using addr fullAddress_no_address[of "venue_of e" env] by auto
  obtain col where col: "ticketStatusColor ?code = Inr (JStr col)"
      "\<not> truthy ?code \<longrightarrow> col = ''gray''"
    using assms ticketStatusColor_status_like[of ?code] by (auto simp: detail_like_def)
  obtain price where price: "formatPriceRange env (oget e ''priceRanges'') = Inr (JStr price)"
      "no_price (oget e ''priceRanges'') \<longrightarrow> price = ''''"
    using assms formatPriceRange_value[of "oget e ''priceRanges''" env]
    by (auto simp: detail_like_def)
  obtain g where g: "pickGenre env (oget e ''classifications'') = Inr (JStr g)"
      "no_genre (oget e ''classifications'') \<longrightarrow> g = ''''"
    using assms pickGenre_value[of "oget e ''classifications''" env]
    by (auto simp: detail_like_def)
  have "details env e =
             Inr (JObj
               [(''id'', own e ''id''),
                (''name'', coalesce (own e ''name'') (JStr '''')),
                (''dateLocal'',
                   coalesce (oget (oget (oget e ''dates'') ''start'') ''localDate'') (JStr '''')),
                (''timeLocal'',
                   coalesce (oget (oget (oget e ''dates'') ''start'') ''localTime'') (JStr '''')),
                (''artists'',
                   JArr (take 5 (map artist_of
                                   (elements (oget (oget e ''_embedded'') ''attractions''))))),
                (''venue'', coalesce (oget (venue_of e) ''name'') (JStr '''')),
                (''address'', JStr addr),
                (''ticketStatus'', coalesce ?code (JStr '''')),
                (''ticketStatusColor'', JStr col),
                (''buyTicketAt'', coalesce (oget e ''url'') (JStr '''')),
                (''seatmap'', coalesce (oget (oget e ''seatmap'') ''staticUrl'') (JStr '''')),
                (''priceRange'', JStr price),
                (''genre'', JStr g)])"
    using nn artists addr[unfolded venue_of_def] col(1) price(1) g(1)
    by (simp add: details_def get_def venue_of_def)
  with addr0 col(2) price(2) g(2) show ?thesis by blast
qed

text \<open>
  Claim C2, as the code has it. Take an upstream event payload, whatever fields it lacks,
  whose present parts are of the kinds the normalizers read: the event is not null; the
  entries of the images array are not null and have a width and a height that are absent
  or primitive; the attractions are absent (or falsy) or an array without a null entry;
  the status code is absent (or falsy) or a string; every part that is turned into text
  or into a number (the names of the first classification, the parts of the address, the
  bounds of the first price range) is absent or primitive. Then the search row and the
  detail card are built without a runtime failure. Every field but \<^verbatim>\<open>id\<close> is never null
  or undefined and has its default when the upstream data behind it is absent: the empty
  string, gray for the color, the empty list for the artists. The field \<^verbatim>\<open>id\<close> is the
  upstream id as it is, undefined when the payload has none; the artists are the first
  five attractions, each with its upstream name and url as they are.
\<close>

theorem normalized_fields:
  "(row_like e \<longrightarrow>
      (\<exists>row. normEventRow env e = Inr (JObj row)
         \<and> map fst row = [''id'', ''name'', ''dateLocal'', ''imageUrl'', ''genre'', ''venue'']
         \<and> map_of row ''id'' = Some (own e ''id'')
         \<and> list_all (\<lambda>(k, v). k = ''id'' \<or> \<not> nullish v) row
         \<and> (nullish (own e ''name'') \<longrightarrow> map_of row ''name'' = Some (JStr ''''))
         \<and> (nullish (oget (oget (oget e ''dates'') ''start'') ''localDate'')
              \<longrightarrow> map_of row ''dateLocal'' = Some (JStr ''''))
         \<and> (no_image_url (oget e ''images'') \<longrightarrow> map_of row ''imageUrl'' = Some (JStr ''''))
         \<and> (no_genre (oget e ''classifications'') \<longrightarrow> map_of row ''genre'' = Some (JStr ''''))
         \<and> (nullish (oget (venue_of e) ''name'') \<longrightarrow> map_of row ''venue'' = Some (JStr ''''))))
   \<and> (detail_like e \<longrightarrow>
      (\<exists>d. details env e = Inr (JObj d)
         \<and> map fst d = [''id'', ''name'', ''dateLocal'', ''timeLocal'', ''artists'', ''venue'',
                         ''address'', ''ticketStatus'', ''ticketStatusColor'', ''buyTicketAt'',
                         ''seatmap'', ''priceRange'', ''genre'']
         \<and> map_of d ''id'' = Some (own e ''id'')
         \<and> list_all (\<lambda>(k, v). k = ''id'' \<or> \<not> nullish v) d
         \<and> map_of d ''artists''
             = Some (JArr (take 5 (map artist_of
                                     (elements (oget (oget e ''_embedded'') ''attractions'')))))
         \<and> (nullish (own e ''name'') \<longrightarrow> map_of d ''name'' = Some (JStr ''''))
         \<and> (nullish (oget (oget (oget e ''dates'') ''start'') ''localDate'')
              \<longrightarrow> map_of d ''dateLocal'' = Some (JStr ''''))
         \<and> (nullish (oget (oget (oget e ''dates'') ''start'') ''localTime'')
              \<longrightarrow> map_of d ''timeLocal'' = Some (JStr ''''))
         \<and> (nullish (oget (venue_of e) ''name'') \<longrightarrow> map_of d ''venue'' = Some (JStr ''''))
         \<and> (no_address (venue_of e) \<longrightarrow> map_of d ''address'' = Some (JStr ''''))
         \<and> (nullish (oget (oget (oget e ''dates'') ''status'') ''code'')
              \<longrightarrow> map_of d ''ticketStatus'' = Some (JStr '''')
                  \<and> map_of d ''ticketStatusColor'' = Some (JStr ''gray''))
         \<and> (\<not> truthy (oget (oget (oget e ''dates'') ''status'') ''code'')
              \<longrightarrow> map_of d ''ticketStatusColor'' = Some (JStr ''gray''))
         \<and> (nullish (oget e ''url'') \<longrightarrow> map_of d ''buyTicketAt'' = Some (JStr ''''))
         \<and> (nullish (oget (oget e ''seatmap'') ''staticUrl'')
              \<longrightarrow> map_of d ''seatmap'' = Some (JStr ''''))
         \<and> (no_price (oget e ''priceRanges'') \<longrightarrow> map_of d ''priceRange'' = Some (JStr ''''))
         \<and> (no_genre (oget e ''classifications'') \<longrightarrow> map_of d ''genre'' = Some (JStr ''''))))"
proof (intro conjI impI)
  assume "row_like e"
  then obtain im g where f: "\<not> nullish im" "no_image_url (oget e ''images'') \<longrightarrow> im = JStr ''''"
      "no_genre (oget e ''classifications'') \<longrightarrow> g = ''''"
    and r: "normEventRow env e =
               Inr (JObj
                 [(''id'', own e ''id''),
                  (''name'', coalesce (own e ''name'') (JStr '''')),
                  (''dateLocal'',
                     coalesce (oget (oget (oget e ''dates'') ''start'') ''localDate'') (JStr '''')),
                  (''imageUrl'', im),
                  (''genre'', JStr g),
                  (''venue'', coalesce (oget (venue_of e) ''name'') (JStr ''''))])"
    using normEventRow_explicit[of e env] by blast
  show "\<exists>row. normEventRow env e = Inr (JObj row)
         \<and> map fst row = [''id'', ''name'', ''dateLocal'', ''imageUrl'', ''genre'', ''venue'']
         \<and> map_of row ''id'' = Some (own e ''id'')
         \<and> list_all (\<lambda>(k, v). k = ''id'' \<or> \<not> nullish v) row
         \<and> (nullish (own e ''name'') \<longrightarrow> map_of row ''name'' = Some (JStr ''''))
         \<and> (nullish (oget (oget (oget e ''dates'') ''start'') ''localDate'')
              \<longrightarrow> map_of row ''dateLocal'' = Some (JStr ''''))
         \<and> (no_image_url (oget e ''images'') \<longrightarrow> map_of row ''imageUrl'' = Some (JStr ''''))
         \<and> (no_genre (oget e ''classifications'') \<longrightarrow> map_of row ''genre'' = Some (JStr ''''))
         \<and> (nullish (oget (venue_of e) ''name'') \<longrightarrow> map_of row ''venue'' = Some (JStr ''''))"
    unfolding r using f by (simp add: coalesce_absent)
next
  assume "detail_like e"
  then obtain addr col price g where f:
      "no_address (venue_of e) \<longrightarrow> addr = ''''"
      "\<not> truthy (oget (oget (oget e ''dates'') ''status'') ''code'') \<longrightarrow> col = ''gray''"
      "no_price (oget e ''priceRanges'') \<longrightarrow> price = ''''"
      "no_genre (oget e ''classifications'') \<longrightarrow> g = ''''"
    and d: "details env e =
             Inr (JObj
               [(''id'', own e ''id''),
                (''name'', coalesce (own e ''name'') (JStr '''')),
                (''dateLocal'',
                   coalesce (oget (oget (oget e ''dates'') ''start'') ''localDate'') (JStr '''')),
                (''timeLocal'',
                   coalesce (oget (oget (oget e ''dates'') ''start'') ''localTime'') (JStr '''')),
                (''artists'',
                   JArr (take 5 (map artist_of
                                   (elements (oget (oget e ''_embedded'') ''attractions''))))),
                (''venue'', coalesce (oget (venue_of e) ''name'') (JStr '''')),
                (''address'', JStr addr),
                (''ticketStatus'',
                   coalesce (oget (oget (oget e ''dates'') ''status'') ''code'') (JStr '''')),
                (''ticketStatusColor'', JStr col),
                (''buyTicketAt'', coalesce (oget e ''url'') (JStr '''')),
                (''seatmap'', coalesce (oget (oget e ''seatmap'') ''staticUrl'') (JStr '''')),
                (''priceRange'', JStr price),
                (''genre'', JStr g)])"
    using details_explicit[of e env] by blast
  have n: "nullish v \<Longrightarrow> \<not> truthy v" for v
    using truthy_not_nullish by blast
  show "\<exists>d. details env e = Inr (JObj d)
         \<and> map fst d = [''id'', ''name'', ''dateLocal'', ''timeLocal'', ''artists'', ''venue'',
                         ''address'', ''ticketStatus'', ''ticketStatusColor'', ''buyTicketAt'',
                         ''seatmap'', ''priceRange'', ''genre'']
         \<and> map_of d ''id'' = Some (own e ''id'')
         \<and> list_all (\<lambda>(k, v). k = ''id'' \<or> \<not> nullish v) d
         \<and> map_of d ''artists''
             = Some (JArr (take 5 (map artist_of
                                     (elements (oget (oget e ''_embedded'') ''attractions'')))))
         \<and> (nullish (own e ''name'') \<longrightarrow> map_of d ''name'' = Some (JStr ''''))
         \<and> (nullish (oget (oget (oget e ''dates'') ''start'') ''localDate'')
              \<longrightarrow> map_of d ''dateLocal'' = Some (JStr ''''))
         \<and> (nullish (oget (oget (oget e ''dates'') ''start'') ''localTime'')
              \<longrightarrow> map_of d ''timeLocal'' = Some (JStr ''''))
         \<and> (nullish (oget (venue_of e) ''name'') \<longrightarrow> map_of d ''venue'' = Some (JStr ''''))
         \<and> (no_address (venue_of e) \<longrightarrow> map_of d ''address'' = Some (JStr ''''))
         \<and> (nullish (oget (oget (oget e ''dates'') ''status'') ''code'')
              \<longrightarrow> map_of d ''ticketStatus'' = Some (JStr '''')
                  \<and> map_of d ''ticketStatusColor'' = Some (JStr ''gray''))
         \<and> (\<not> truthy (oget (oget (oget e ''dates'') ''status'') ''code'')
              \<longrightarrow> map_of d ''ticketStatusColor'' = Some (JStr ''gray''))
         \<and> (nullish (oget e ''url'') \<longrightarrow> map_of d ''buyTicketAt'' = Some (JStr ''''))
         \<and> (nullish (oget (oget e ''seatmap'') ''staticUrl'')
              \<longrightarrow> map_of d ''seatmap'' = Some (JStr ''''))
         \<and> (no_price (oget e ''priceRanges'') \<longrightarrow> map_of d ''priceRange'' = Some (JStr ''''))
         \<and> (no_genre (oget e ''classifications'') \<longrightarrow> map_of d ''genre'' = Some (JStr ''''))"
    unfolding d using f n by (simp add: coalesce_absent)
qed

lemma fields_6:
  assumes "map fst row = [k1, k2, k3, k4, k5, k6]" and "distinct [k1, k2, k3, k4, k5, k6]"
    and "map_of row k1 = Some v1" and "map_of row k2 = Some v2" and "map_of row k3 = Some v3"
    and "map_of row k4 = Some v4" and "map_of row k5 = Some v5" and "map_of row k6 = Some v6"
  shows "row = [(k1, v1), (k2, v2), (k3, v3), (k4, v4), (k5, v5), (k6, v6)]"
  using assms by (auto simp: map_eq_Cons_conv)

text \<open>An event with an id and nothing else, and an event whose image, classification, price
  range, venue and attraction are there but empty.\<close>

theorem normalized_fields_witness:
  "row_like event_bare \<and> detail_like event_bare
   \<and> normEventRow offline event_bare =
       Inr (JObj [(''id'', JStr ''E1''), (''name'', JStr ''''), (''dateLocal'', JStr ''''),
                  (''imageUrl'', JStr ''''), (''genre'', JStr ''''), (''venue'', JStr '''')])
   \<and> (\<exists>d. details offline event_bare = Inr (JObj d)
          \<and> map_of d ''id'' = Some (JStr ''E1'')
          \<and> map_of d ''artists'' = Some (JArr [])
          \<and> map_of d ''address'' = Some (JStr '''')
          \<and> map_of d ''ticketStatus'' = Some (JStr '''')
          \<and> map_of d ''ticketStatusColor'' = Some (JStr ''gray'')
          \<and> map_of d ''priceRange'' = Some (JStr ''''))
   \<and> row_like event_hollow \<and> detail_like event_hollow
   \<and> normEventRow offline event_hollow =
       Inr (JObj [(''id'', JStr ''E4''), (''name'', JStr ''''), (''dateLocal'', JStr ''''),
                  (''imageUrl'', JStr ''''), (''genre'', JStr ''''), (''venue'', JStr '''')])
   \<and> (\<exists>d. details offline event_hollow = Inr (JObj d)
          \<and> map_of d ''artists''
              = Some (JArr [JObj [(''name'', JUndefined), (''url'', JUndefined)]])
          \<and> map_of d ''address'' = Some (JStr '''')
          \<and> map_of d ''priceRange'' = Some (JStr '''')
          \<and> map_of d ''genre'' = Some (JStr ''''))"
proof -
  have like2: "row_like event_hollow" "detail_like event_hollow"
    by (simp_all add: row_like_def detail_like_def event_hollow_def oget_def oget0_def
          venue_of_def images_like_def image_like_def genre_like_def artists_like_def
          address_like_def status_like_def prices_like_def primitive_def)
  have absent2: "own event_hollow ''id'' = JStr ''E4''"
      "nullish (own event_hollow ''name'')"
      "nullish (oget (oget (oget event_hollow ''dates'') ''start'') ''localDate'')"
      "no_image_url (oget event_hollow ''images'')"
      "no_genre (oget event_hollow ''classifications'')"
      "nullish (oget (venue_of event_hollow) ''name'')"
      "no_address (venue_of event_hollow)"
      "no_price (oget event_hollow ''priceRanges'')"
      "map artist_of (elements (oget (oget event_hollow ''_embedded'') ''attractions''))
         = [JObj [(''name'', JUndefined), (''url'', JUndefined)]]"
    by (simp_all add: event_hollow_def oget_def oget0_def venue_of_def elements_def
                      no_image_url_def no_genre_def no_price_def no_address_def artist_of_def)
  note inst2 = normalized_fields[of event_hollow offline]
  from inst2 like2(1) absent2 obtain row2 where row2:
      "normEventRow offline event_hollow = Inr (JObj row2)"
      "map fst row2 = [''id'', ''name'', ''dateLocal'', ''imageUrl'', ''genre'', ''venue'']"
      "map_of row2 ''id'' = Some (JStr ''E4'')"
      "map_of row2 ''name'' = Some (JStr '''')"
      "map_of row2 ''dateLocal'' = Some (JStr '''')"
      "map_of row2 ''imageUrl'' = Some (JStr '''')"
      "map_of row2 ''genre'' = Some (JStr '''')"
      "map_of row2 ''venue'' = Some (JStr '''')"
    by auto
  have "row2 = [(''id'', JStr ''E4''), (''name'', JStr ''''), (''dateLocal'', JStr ''''),
               (''imageUrl'', JStr ''''), (''genre'', JStr ''''), (''venue'', JStr '''')]"
    by (rule fields_6[OF row2(2) _ row2(3-8)]) simp
  with row2(1) have r2: "normEventRow offline event_hollow =
       Inr (JObj [(''id'', JStr ''E4''), (''name'', JStr ''''), (''dateLocal'', JStr ''''),
                  (''imageUrl'', JStr ''''), (''genre'', JStr ''''), (''venue'', JStr '''')])"
    by simp
  from inst2 like2(2) absent2 have d2: "\<exists>d. details offline event_hollow = Inr (JObj d)
          \<and> map_of d ''artists''
              = Some (JArr [JObj [(''name'', JUndefined), (''url'', JUndefined)]])
          \<and> map_of d ''address'' = Some (JStr '''')
          \<and> map_of d ''priceRange'' = Some (JStr '''')
          \<and> map_of d ''genre'' = Some (JStr '''')"
    by auto
  have like: "row_like event_bare" "detail_like event_bare"
    by (simp_all add: row_like_def detail_like_def event_bare_def oget_def oget0_def venue_of_def
          images_like_def genre_like_def artists_like_def address_like_def status_like_def
          prices_like_def primitive_def)
  have absent: "own event_bare ''id'' = JStr ''E1''"
      "nullish (own event_bare ''name'')"
      "nullish (oget (oget (oget event_bare ''dates'') ''start'') ''localDate'')"
      "no_image_url (oget event_bare ''images'')"
      "no_genre (oget event_bare ''classifications'')"
      "nullish (oget (venue_of event_bare) ''name'')"
      "no_address (venue_of event_bare)"
      "nullish (oget (oget (oget event_bare ''dates'') ''status'') ''code'')"
      "no_price (oget event_bare ''priceRanges'')"
      "elements (oget (oget event_bare ''_embedded'') ''attractions'') = []"
    by (simp_all add: event_bare_def oget_def oget0_def venue_of_def elements_def
                      no_image_url_def no_genre_def no_price_def no_address_def)
  note inst = normalized_fields[of event_bare offline]
  from inst like(1) absent obtain row where row:
      "normEventRow offline event_bare = Inr (JObj row)"
      "map fst row = [''id'', ''name'', ''dateLocal'', ''imageUrl'', ''genre'', ''venue'']"
      "map_of row ''id'' = Some (JStr ''E1'')"
      "map_of row ''name'' = Some (JStr '''')"
      "map_of row ''dateLocal'' = Some (JStr '''')"
      "map_of row ''imageUrl'' = Some (JStr '''')"
      "map_of row ''genre'' = Some (JStr '''')"
      "map_of row ''venue'' = Some (JStr '''')"
    by auto
  have "row = [(''id'', JStr ''E1''), (''name'', JStr ''''), (''dateLocal'', JStr ''''),
               (''imageUrl'', JStr ''''), (''genre'', JStr ''''), (''venue'', JStr '''')]"
    by (rule fields_6[OF row(2) _ row(3-8)]) simp
  with row(1) have r: "normEventRow offline event_bare =
       Inr (JObj [(''id'', JStr ''E1''), (''name'', JStr ''''), (''dateLocal'', JStr ''''),
                  (''imageUrl'', JStr ''''), (''genre'', JStr ''''), (''venue'', JStr '''')])"
    by simp
  from inst like(2) absent have d: "\<exists>d. details offline event_bare = Inr (JObj d)
          \<and> map_of d ''id'' = Some (JStr ''E1'')
          \<and> map_of d ''artists'' = Some (JArr [])
          \<and> map_of d ''address'' = Some (JStr '''')
          \<and> map_of d ''ticketStatus'' = Some (JStr '''')
          \<and> map_of d ''ticketStatusColor'' = Some (JStr ''gray'')
          \<and> map_of d ''priceRange'' = Some (JStr '''')"
    by auto
  from like r d like2 r2 d2 show ?thesis by blast
qed

text \<open>Where the claim as written fails: for an event without an id a row is produced, and
  its id is undefined; so is the name of an artist whose attraction has none.\<close>

theorem normalized_id_counterexample:
  "normEventRow offline event_no_id =
     Inr (JObj [(''id'', JUndefined), (''name'', JStr ''Show''), (''dateLocal'', JStr ''''),
                (''imageUrl'', JStr ''''), (''genre'', JStr ''''), (''venue'', JStr '''')])
   \<and> own event_no_id ''id'' = JUndefined
   \<and> (case details offline event_no_id of
        Inr d \<Rightarrow> own d ''id'' = JUndefined
                \<and> own d ''artists'' = JArr [JObj [(''name'', JUndefined), (''url'', JStr ''u'')]]
      | Inl err \<Rightarrow> False)"
  by (simp add: normEventRow_def details_def event_no_id_def get_def oget_def oget0_def
        pickImage_def pickGenre_def coalesce_def or_else_def array_map_def artist_def
        fullAddress_def ticketStatusColor_def toLowerCase_def str_includes_def
        formatPriceRange_def)

text \<open>Outside these payloads: attractions that are an object and no array. The default
  \<^verbatim>\<open>|| []\<close> keeps the object and the call of \<^verbatim>\<open>map\<close> throws.\<close>

lemma details_attractions_object:
  "details offline
     (JObj [(''id'', JStr ''E5''), (''_embedded'', JObj [(''attractions'', JObj [])])])
   = Inl TypeError"
  by (simp add: details_def get_def oget_def or_else_def array_map_def)

end
